(* ===== verification/Prelude.thy ===== *)
theory Prelude
  imports Main "HOL-Library.Multiset"
begin

text \<open>
  Shared vocabulary of the development: the names of the model's types, the
  collections of rewrite rules the component theories extend, and generic facts on
  lists, characters and decimal digits that several components use.  Bytes are
  natural numbers below 256, as crypto-js's WordArray exposes them byte by byte;
  JavaScript numbers that the token code stores are integers (\<open>int\<close>), see the
  header of \<open>Spec2Isabelle\<close> for the range this is faithful on.
\<close>

named_theorems codec_simps "evaluation rules of the wire codec, for closed inputs"
named_theorems roundtrip_simps "decode-after-encode rules of the codec layers"

type_synonym byte = nat
type_synonym bytes = "nat list"
type_synonym js_number = int

definition bytes_ok :: "bytes \<Rightarrow> bool" where
  "bytes_ok bs \<longleftrightarrow> list_all (\<lambda>b. b < 256) bs"

lemma bytes_ok_simps [simp]:
  "bytes_ok []"
  "bytes_ok (b # bs) \<longleftrightarrow> b < 256 \<and> bytes_ok bs"
  "bytes_ok (xs @ ys) \<longleftrightarrow> bytes_ok xs \<and> bytes_ok ys"
  by (simp_all add: bytes_ok_def)

lemma bytes_ok_concat [simp]:
  "bytes_ok (concat xss) \<longleftrightarrow> (\<forall>xs \<in> set xss. bytes_ok xs)"
  by (induction xss) auto

subsection \<open>Decimal digits\<close>

text \<open>
  The decimal representation of a natural number, most significant digit first, and
  the value of a digit string.  JavaScript's \<open>Number::toString\<close> on integers and the
  integer part of \<open>JSON.parse\<close> and \<open>Number(string)\<close> are built from these.
\<close>

definition digit_char :: "nat \<Rightarrow> char" where
  "digit_char d = char_of (48 + d)"

definition is_dec_digit :: "char \<Rightarrow> bool" where
  "is_dec_digit c \<longleftrightarrow> (48::nat) \<le> of_char c \<and> (of_char c :: nat) \<le> 57"

definition digit_val :: "char \<Rightarrow> nat" where
  "digit_val c = of_char c - 48"

fun dec_string :: "nat \<Rightarrow> string" where
  "dec_string n = (if n < 10 then [digit_char n] else dec_string (n div 10) @ [digit_char (n mod 10)])"

declare dec_string.simps [simp del]

fun digits_value_acc :: "nat \<Rightarrow> string \<Rightarrow> nat" where
  "digits_value_acc acc [] = acc"
| "digits_value_acc acc (c # cs) = digits_value_acc (10 * acc + digit_val c) cs"

abbreviation digits_value :: "string \<Rightarrow> nat" where
  "digits_value s \<equiv> digits_value_acc 0 s"

lemma digit_char_is_dec_digit [simp]: "d < 10 \<Longrightarrow> is_dec_digit (digit_char d)"
  by (simp add: digit_char_def is_dec_digit_def)

lemma digit_val_digit_char [simp]: "d < 10 \<Longrightarrow> digit_val (digit_char d) = d"
  by (simp add: digit_char_def digit_val_def)

lemma digit_char_inj [simp]:
  "d < 10 \<Longrightarrow> e < 10 \<Longrightarrow> digit_char d = digit_char e \<longleftrightarrow> d = e"
  by (metis digit_val_digit_char)

lemma digits_value_acc_append [simp]:
  "digits_value_acc acc (xs @ ys) = digits_value_acc (digits_value_acc acc xs) ys"
  by (induction xs arbitrary: acc) auto

lemma dec_string_nonempty [simp]: "dec_string n \<noteq> []"
  by (subst dec_string.simps) simp

lemma dec_string_digits: "c \<in> set (dec_string n) \<Longrightarrow> is_dec_digit c"
proof (induction n rule: dec_string.induct)
  case (1 n)
  then show ?case
    by (cases "n < 10") (auto simp: dec_string.simps [of n])
qed

lemma dec_string_value [simp]: "digits_value (dec_string n) = n"
proof (induction n rule: dec_string.induct)
  case (1 n)
  then show ?case
    by (cases "n < 10") (auto simp: dec_string.simps [of n])
qed

lemma dec_string_inj [simp]: "dec_string m = dec_string n \<longleftrightarrow> m = n"
  by (metis dec_string_value)

lemma dec_string_hd: "hd (dec_string n) = CHR ''0'' \<Longrightarrow> n = 0"
proof (induction n rule: dec_string.induct)
  case (1 n)
  show ?case
  proof (cases "n < 10")
    case True
    with "1.prems" have "char_of (48 + n) = CHR ''0''"
      by (simp add: dec_string.simps [of n] digit_char_def)
    with True show ?thesis by (simp add: char_of_eq_iff take_bit_eq_mod)
  next
    case False
    with "1.prems" have "hd (dec_string (n div 10)) = CHR ''0''"
      by (simp add: dec_string.simps [of n])
    with "1.IH" False have "n div 10 = 0" by simp
    with False show ?thesis by simp
  qed
qed

lemma dec_string_small: "n < 10 \<Longrightarrow> dec_string n = [digit_char n]"
  by (simp add: dec_string.simps [of n])

subsection \<open>Lists\<close>

lemma takeWhile_append_all [simp]:
  "(\<forall>x \<in> set xs. P x) \<Longrightarrow> takeWhile P (xs @ ys) = xs @ takeWhile P ys"
  by (induction xs) auto

end
