(* ===== verification/Json.thy ===== *)
theory Json
  imports Prelude
begin

text \<open>
  The JavaScript runtime pieces the token code relies on: the insertion-ordered
  \<open>Map\<close>, the own-property order of ordinary objects, \<open>JSON.stringify\<close> and
  \<open>JSON.parse\<close> (ECMA-262, not code of this repository).  A JSON value is the
  \<open>json\<close> datatype; an object is its list of own properties in own-key order
  (array-index keys ascending first, then the other keys in creation order), which is
  the order \<open>JSON.stringify\<close>, \<open>Object.entries\<close> and \<open>for-in\<close> see.  Numbers are
  integers (the token's fields are); a fraction or exponent in \<open>JSON.parse\<close>'s input
  is outside the model and rejected, as is a \<open>\u\<close> escape above U+00FF.
  \<open>JSON_parse\<close> runs a recursive-descent parser with fuel; the fuel it gives
  (twice the input length and one) is enough for every text the development
  produces (\<open>JSON_parse_stringify\<close>).
\<close>

subsection \<open>Maps and objects\<close>

text \<open>\<open>Map.prototype.set\<close> and \<open>CreateDataProperty\<close> alike: an existing key keeps
  its position and takes the new value, a new key goes last.\<close>

definition assoc_set :: "('k \<times> 'v) list \<Rightarrow> 'k \<Rightarrow> 'v \<Rightarrow> ('k \<times> 'v) list" where
  "assoc_set ps k v =
     (if k \<in> fst ` set ps then map (\<lambda>(k', v'). if k' = k then (k', v) else (k', v')) ps
      else ps @ [(k, v)])"

definition assoc_of_list :: "('k \<times> 'v) list \<Rightarrow> ('k \<times> 'v) list" where
  "assoc_of_list ps = fold (\<lambda>(k, v) acc. assoc_set acc k v) ps []"

text \<open>An array index is the canonical decimal form of an integer below \<open>2^32 - 1\<close>.\<close>

definition is_array_index :: "string \<Rightarrow> bool" where
  "is_array_index k \<longleftrightarrow> k \<noteq> [] \<and> list_all is_dec_digit k \<and> (k = ''0'' \<or> hd k \<noteq> CHR ''0'')
     \<and> digits_value k < 4294967295"

definition own_order :: "(string \<times> 'v) list \<Rightarrow> (string \<times> 'v) list" where
  "own_order ps =
     sort_key (\<lambda>p. digits_value (fst p)) (filter (\<lambda>p. is_array_index (fst p)) ps)
     @ filter (\<lambda>p. \<not> is_array_index (fst p)) ps"

text \<open>An object built by defining the given properties in turn, as an object literal,
  \<open>Object.fromEntries\<close> and \<open>JSON.parse\<close> do, read back in own-key order.\<close>

definition js_object :: "(string \<times> 'v) list \<Rightarrow> (string \<times> 'v) list" where
  "js_object ps = own_order (assoc_of_list ps)"

text \<open>\<open>Number::toString\<close> on an integer (exact below \<open>10^21\<close>).\<close>

definition js_int_string :: "int \<Rightarrow> string" where
  "js_int_string i = (if i < 0 then CHR ''-'' # dec_string (nat (- i)) else dec_string (nat i))"

subsection \<open>JSON values and JSON.stringify\<close>

datatype json = JNull | JBool bool | JNum int | JStr string | JArr "json list"
  | JObj "(string \<times> json) list"

definition hex_digit :: "nat \<Rightarrow> char" where
  "hex_digit d = (if d < 10 then digit_char d else char_of (87 + d))"

text \<open>\<open>QuoteJSONString\<close> for one character: the short escapes, \<open>\u00XX\<close> with
  lower-case hex digits for the other control characters, the rest unchanged.\<close>

definition quote_char :: "char \<Rightarrow> string" where
  "quote_char c = (let n = (of_char c :: nat) in
     if c = CHR 0x22 then [CHR 0x5C, CHR 0x22]
     else if c = CHR 0x5C then [CHR 0x5C, CHR 0x5C]
     else if n = 8 then [CHR 0x5C, CHR ''b'']
     else if n = 12 then [CHR 0x5C, CHR ''f'']
     else if n = 10 then [CHR 0x5C, CHR ''n'']
     else if n = 13 then [CHR 0x5C, CHR ''r'']
     else if n = 9 then [CHR 0x5C, CHR ''t'']
     else if n < 32 then [CHR 0x5C, CHR ''u'', CHR ''0'', CHR ''0'', hex_digit (n div 16), hex_digit (n mod 16)]
     else [c])"

definition json_quote :: "string \<Rightarrow> string" where
  "json_quote s = CHR 0x22 # concat (map quote_char s) @ [CHR 0x22]"

fun join_commas :: "string list \<Rightarrow> string" where
  "join_commas [] = []"
| "join_commas [x] = x"
| "join_commas (x # xs) = x @ CHR '','' # join_commas xs"

fun json_stringify :: "json \<Rightarrow> string" where
  "json_stringify JNull = ''null''"
| "json_stringify (JBool b) = (if b then ''true'' else ''false'')"
| "json_stringify (JNum i) = js_int_string i"
| "json_stringify (JStr s) = json_quote s"
| "json_stringify (JArr vs) = CHR ''['' # join_commas (map json_stringify vs) @ '']''"
| "json_stringify (JObj ps) =
     CHR ''{'' # join_commas (map (\<lambda>(k, v). json_quote k @ CHR '':'' # json_stringify v) ps) @ ''}''"

subsection \<open>JSON.parse\<close>

definition is_ws :: "char \<Rightarrow> bool" where
  "is_ws c \<longleftrightarrow> c = CHR 0x20 \<or> c = CHR 0x09 \<or> c = CHR 0x0A \<or> c = CHR 0x0D"

definition hex_val :: "char \<Rightarrow> nat option" where
  "hex_val c = (let n = (of_char c :: nat) in
     if 48 \<le> n \<and> n \<le> 57 then Some (n - 48)
     else if 97 \<le> n \<and> n \<le> 102 then Some (n - 87)
     else if 65 \<le> n \<and> n \<le> 70 then Some (n - 55)
     else None)"

definition hex4 :: "char \<Rightarrow> char \<Rightarrow> char \<Rightarrow> char \<Rightarrow> nat option" where
  "hex4 a b c d = (case (hex_val a, hex_val b, hex_val c, hex_val d) of
     (Some w, Some x, Some y, Some z) \<Rightarrow> Some (((w * 16 + x) * 16 + y) * 16 + z)
   | _ \<Rightarrow> None)"

definition cons_fst :: "'a \<Rightarrow> ('a list \<times> 'b) option \<Rightarrow> ('a list \<times> 'b) option" where
  "cons_fst x = map_option (\<lambda>(xs, r). (x # xs, r))"

text \<open>The characters of a string literal after its opening quote, up to and
  without the closing quote, and the text after it.\<close>

fun jp_string :: "string \<Rightarrow> (string \<times> string) option" where
  "jp_string [] = None"
| "jp_string (c # cs) =
     (if c = CHR 0x22 then Some ([], cs)
      else if c = CHR 0x5C then
        (case cs of
          [] \<Rightarrow> None
        | e # r \<Rightarrow>
            if e = CHR 0x22 \<or> e = CHR 0x5C \<or> e = CHR ''/'' then cons_fst e (jp_string r)
            else if e = CHR ''b'' then cons_fst (char_of (8::nat)) (jp_string r)
            else if e = CHR ''f'' then cons_fst (char_of (12::nat)) (jp_string r)
            else if e = CHR ''n'' then cons_fst (char_of (10::nat)) (jp_string r)
            else if e = CHR ''r'' then cons_fst (char_of (13::nat)) (jp_string r)
            else if e = CHR ''t'' then cons_fst (char_of (9::nat)) (jp_string r)
            else if e = CHR ''u'' then
              (case r of
                h1 # h2 # h3 # h4 # r' \<Rightarrow>
                  (case hex4 h1 h2 h3 h4 of
                    Some n \<Rightarrow> if n < 256 then cons_fst (char_of n) (jp_string r') else None
                  | None \<Rightarrow> None)
              | _ \<Rightarrow> None)
            else None)
      else if (of_char c :: nat) < 32 then None
      else cons_fst c (jp_string cs))"

text \<open>A number: an optional minus sign and an integer part without leading zeros;
  a fraction or an exponent part is outside the integer model.\<close>

definition jp_int_part :: "string \<Rightarrow> (nat \<times> string) option" where
  "jp_int_part s =
     (case s of
       [] \<Rightarrow> None
     | c # r \<Rightarrow>
         if \<not> is_dec_digit c then None
         else
           let ds = (if c = CHR ''0'' then [c] else takeWhile is_dec_digit s);
               rest = drop (length ds) s
           in if rest \<noteq> [] \<and> (hd rest = CHR ''.'' \<or> hd rest = CHR ''e'' \<or> hd rest = CHR ''E'')
              then None
              else Some (digits_value ds, rest))"

definition jp_number :: "string \<Rightarrow> (int \<times> string) option" where
  "jp_number s =
     (case s of
       [] \<Rightarrow> None
     | c # r \<Rightarrow>
         if c = CHR ''-'' then map_option (\<lambda>(v, r'). (- int v, r')) (jp_int_part r)
         else map_option (\<lambda>(v, r'). (int v, r')) (jp_int_part s))"

text \<open>A value that is not an object or an array, given its first character.\<close>

definition jp_scalar :: "char \<Rightarrow> string \<Rightarrow> (json \<times> string) option" where
  "jp_scalar c r =
     (if c = CHR 0x22 then map_option (\<lambda>(str, r'). (JStr str, r')) (jp_string r)
      else if c = CHR ''t'' then (if take 3 r = ''rue'' then Some (JBool True, drop 3 r) else None)
      else if c = CHR ''f'' then (if take 4 r = ''alse'' then Some (JBool False, drop 4 r) else None)
      else if c = CHR ''n'' then (if take 3 r = ''ull'' then Some (JNull, drop 3 r) else None)
      else map_option (\<lambda>(i, r'). (JNum i, r')) (jp_number (c # r)))"

fun jp_value :: "nat \<Rightarrow> string \<Rightarrow> (json \<times> string) option"
and jp_elems :: "nat \<Rightarrow> json list \<Rightarrow> string \<Rightarrow> (json \<times> string) option"
and jp_members :: "nat \<Rightarrow> (string \<times> json) list \<Rightarrow> string \<Rightarrow> (json \<times> string) option" where
  "jp_value 0 s = None"
| "jp_value (Suc n) s =
     (case dropWhile is_ws s of
       [] \<Rightarrow> None
     | c # r \<Rightarrow>
         if c = CHR ''{'' then
           (case dropWhile is_ws r of
             [] \<Rightarrow> None
           | d # r' \<Rightarrow> if d = CHR ''}'' then Some (JObj [], r') else jp_members n [] (d # r'))
         else if c = CHR ''['' then
           (case dropWhile is_ws r of
             [] \<Rightarrow> None
           | d # r' \<Rightarrow> if d = CHR '']'' then Some (JArr [], r') else jp_elems n [] (d # r'))
         else jp_scalar c r)"
| "jp_elems 0 acc s = None"
| "jp_elems (Suc n) acc s =
     (case jp_value n s of
       None \<Rightarrow> None
     | Some (v, r) \<Rightarrow>
         (case dropWhile is_ws r of
           [] \<Rightarrow> None
         | d # r' \<Rightarrow>
             if d = CHR '','' then jp_elems n (acc @ [v]) r'
             else if d = CHR '']'' then Some (JArr (acc @ [v]), r')
             else None))"
| "jp_members 0 acc s = None"
| "jp_members (Suc n) acc s =
     (case dropWhile is_ws s of
       d # r \<Rightarrow>
         if d \<noteq> CHR 0x22 then None
         else
           (case jp_string r of
             None \<Rightarrow> None
           | Some (k, r1) \<Rightarrow>
               (case dropWhile is_ws r1 of
                 e # r2 \<Rightarrow>
                   if e \<noteq> CHR '':'' then None
                   else
                     (case jp_value n r2 of
                       None \<Rightarrow> None
                     | Some (v, r3) \<Rightarrow>
                         (case dropWhile is_ws r3 of
                           f # r4 \<Rightarrow>
                             if f = CHR '','' then jp_members n (acc @ [(k, v)]) r4
                             else if f = CHR ''}'' then Some (JObj (js_object (acc @ [(k, v)])), r4)
                             else None
                         | [] \<Rightarrow> None))
               | [] \<Rightarrow> None))
     | [] \<Rightarrow> None)"

subsection \<open>Round-trip vocabulary\<close>

text \<open>The fuel a value's text needs (one unit per nesting level and per element),
  the values \<open>JSON.stringify\<close> produces (objects in own-key order, without
  repeated keys), and the characters that may follow a value's text.\<close>

fun jfuel :: "json \<Rightarrow> nat" where
  "jfuel (JArr vs) = Suc (sum_list (map (\<lambda>v. Suc (jfuel v)) vs))"
| "jfuel (JObj ps) = Suc (sum_list (map (\<lambda>(k, v). Suc (jfuel v)) ps))"
| "jfuel _ = 1"

fun json_ok :: "json \<Rightarrow> bool" where
  "json_ok (JArr vs) = list_all json_ok vs"
| "json_ok (JObj ps) = (js_object ps = ps \<and> list_all (\<lambda>(k, v). json_ok v) ps)"
| "json_ok _ = True"

definition json_delim :: "string \<Rightarrow> bool" where
  "json_delim r \<longleftrightarrow> r = [] \<or> hd r = CHR '','' \<or> hd r = CHR '']'' \<or> hd r = CHR ''}''"

declare jp_value.simps(2) [simp del] jp_elems.simps(2) [simp del] jp_members.simps(2) [simp del]

definition JSON_parse :: "string \<Rightarrow> json option" where
  "JSON_parse s =
     (case jp_value (2 * length s + 1) s of
       None \<Rightarrow> None
     | Some (v, r) \<Rightarrow> if dropWhile is_ws r = [] then Some v else None)"

subsection \<open>JSON.parse inverts JSON.stringify\<close>

lemma hex_val_digit: "d < 16 \<Longrightarrow> hex_val (hex_digit d) = Some d"
  by (cases "d < 10") (simp_all add: hex_val_def hex_digit_def digit_char_def Let_def)

lemma cons_fst_Some [simp]: "cons_fst x (Some (xs, r)) = Some (x # xs, r)"
  by (simp add: cons_fst_def)

lemma jp_string_quote_char:
  "jp_string (quote_char c @ t) = cons_fst c (jp_string t)"
proof -
  define n where "n = (of_char c :: nat)"
  have cn: "char_of n = c" by (simp add: n_def)
  have n256: "n < 256" unfolding n_def using of_char_mod_256 [of c] by (metis mod_less_divisor zero_less_numeral)
  consider "c = CHR 0x22" | "c = CHR 0x5C" | "n = 8" | "n = 12" | "n = 10" | "n = 13" | "n = 9"
    | "n < 32" "n \<notin> {8, 9, 10, 12, 13}" | "32 \<le> n" "c \<noteq> CHR 0x22" "c \<noteq> CHR 0x5C"
    by force
  then show ?thesis
  proof cases
    case 8
    then have h: "n div 16 < 16" "n mod 16 < 16" by simp_all
    have "hex4 (CHR ''0'') (CHR ''0'') (hex_digit (n div 16)) (hex_digit (n mod 16)) = Some n"
    proof -
      have "hex_val (CHR ''0'') = Some 0" by (simp add: hex_val_def)
      then show ?thesis using h by (simp add: hex4_def hex_val_digit)
    qed
    with 8 show ?thesis
      by (auto simp: quote_char_def n_def [symmetric] cn)
  next
    case 9
    then have "\<not> n < 32" by simp
    with 9 show ?thesis
      by (simp add: quote_char_def n_def [symmetric] Let_def)
  qed (auto simp: quote_char_def n_def [symmetric] cn [symmetric])
qed

lemma jp_string_quote:
  "jp_string (concat (map quote_char s) @ CHR 0x22 # rest) = Some (s, rest)"
  by (induction s) (simp_all add: jp_string_quote_char)

lemma json_delim_not_digit: "json_delim r \<Longrightarrow> r \<noteq> [] \<Longrightarrow> \<not> is_dec_digit (hd r)"
  by (auto simp: json_delim_def is_dec_digit_def)

lemma json_delim_no_fraction:
  "json_delim r \<Longrightarrow> \<not> (r \<noteq> [] \<and> (hd r = CHR ''.'' \<or> hd r = CHR ''e'' \<or> hd r = CHR ''E''))"
  by (auto simp: json_delim_def)

lemma takeWhile_digits_delim:
  assumes "json_delim r"
  shows "takeWhile is_dec_digit (dec_string n @ r) = dec_string n"
proof -
  have "takeWhile is_dec_digit r = []"
    using json_delim_not_digit [OF assms] by (cases r) auto
  then show ?thesis using dec_string_digits [of _ n] by simp
qed

lemma jp_int_part_dec:
  assumes "json_delim r"
  shows "jp_int_part (dec_string n @ r) = Some (n, r)"
proof -
  obtain c cs where dc: "dec_string n = c # cs" by (cases "dec_string n") auto
  have dig: "is_dec_digit c" using dec_string_digits [of c n] dc by simp
  show ?thesis
  proof (cases "c = CHR ''0''")
    case True
    then have "n = 0" using dec_string_hd [of n] dc by simp
    then have "dec_string n = ''0''" by (simp add: dec_string.simps digit_char_def char_of_eq_iff)
    then show ?thesis using json_delim_no_fraction [OF assms] \<open>n = 0\<close>
      by (simp add: jp_int_part_def is_dec_digit_def digit_val_def)
  next
    case False
    have "takeWhile is_dec_digit (c # cs @ r) = c # cs"
      using takeWhile_digits_delim [OF assms, of n] dc by simp
    then show ?thesis using False dig dc json_delim_no_fraction [OF assms] dec_string_value [of n]
      by (simp add: jp_int_part_def)
  qed
qed

lemma jp_number_int:
  assumes "json_delim r"
  shows "jp_number (js_int_string i @ r) = Some (i, r)"
proof (cases "i < 0")
  case True
  then show ?thesis using jp_int_part_dec [OF assms, of "nat (- i)"]
    by (simp add: js_int_string_def jp_number_def)
next
  case False
  obtain c cs where dc: "dec_string (nat i) = c # cs" by (cases "dec_string (nat i)") auto
  have "c \<noteq> CHR ''-''" using dec_string_digits [of c "nat i"] dc by (auto simp: is_dec_digit_def)
  with False dc show ?thesis using jp_int_part_dec [OF assms, of "nat i"]
    by (simp add: js_int_string_def jp_number_def)
qed

lemma json_stringify_start:
  "\<exists>c t. json_stringify v = c # t \<and> \<not> is_ws c \<and> c \<noteq> CHR '']'' \<and> c \<noteq> CHR ''}''"
proof (cases v)
  case (JNum i)
  obtain c t where "dec_string (nat (if i < 0 then - i else i)) = c # t"
    by (cases "dec_string (nat (if i < 0 then - i else i))") auto
  moreover have "is_dec_digit c" using calculation dec_string_digits by (metis list.set_intros(1))
  ultimately show ?thesis using JNum
    by (auto simp: js_int_string_def is_ws_def is_dec_digit_def)
qed (auto simp: json_quote_def is_ws_def)

lemma dropWhile_ws_stringify [simp]: "dropWhile is_ws (json_stringify v @ r) = json_stringify v @ r"
  using json_stringify_start [of v] by auto

lemma join_commas_Cons: "join_commas (x # xs) = x @ (if xs = [] then [] else CHR '','' # join_commas xs)"
  by (cases xs) simp_all

lemma jp_value_Suc:
  "jp_value (Suc n) s =
     (case dropWhile is_ws s of
       [] \<Rightarrow> None
     | c # r \<Rightarrow>
         if c = CHR ''{'' then
           (case dropWhile is_ws r of [] \<Rightarrow> None
            | d # r' \<Rightarrow> if d = CHR ''}'' then Some (JObj [], r') else jp_members n [] (d # r'))
         else if c = CHR ''['' then
           (case dropWhile is_ws r of [] \<Rightarrow> None
            | d # r' \<Rightarrow> if d = CHR '']'' then Some (JArr [], r') else jp_elems n [] (d # r'))
         else jp_scalar c r)"
  by (rule jp_value.simps(2))

lemma jp_fuel_mono_all:
  "(\<forall>s x. jp_value n s = Some x \<longrightarrow> jp_value (Suc n) s = Some x) \<and>
   (\<forall>acc s x. jp_elems n acc s = Some x \<longrightarrow> jp_elems (Suc n) acc s = Some x) \<and>
   (\<forall>pacc s x. jp_members n pacc s = Some x \<longrightarrow> jp_members (Suc n) pacc s = Some x)"
proof (induction n)
  case 0
  then show ?case by simp
next
  case (Suc n)
  then have IHv: "\<And>s x. jp_value n s = Some x \<Longrightarrow> jp_value (Suc n) s = Some x"
    and IHe: "\<And>acc s x. jp_elems n acc s = Some x \<Longrightarrow> jp_elems (Suc n) acc s = Some x"
    and IHm: "\<And>pacc s x. jp_members n pacc s = Some x \<Longrightarrow> jp_members (Suc n) pacc s = Some x"
    by blast+
  have V: "jp_value (Suc (Suc n)) s = Some x" if prem: "jp_value (Suc n) s = Some x" for s x
  proof (cases "dropWhile is_ws s")
    case Nil
    with prem show ?thesis by (simp add: jp_value_Suc)
  next
    case (Cons c r)
    show ?thesis
    proof (cases "c = CHR ''{'' \<or> c = CHR ''[''")
      case False
      with prem Cons show ?thesis by (simp add: jp_value_Suc)
    next
      case True
      show ?thesis
      proof (cases "dropWhile is_ws r")
        case Nil
        with prem \<open>dropWhile is_ws s = c # r\<close> True show ?thesis
          by (auto simp: jp_value_Suc simp del: dropWhile_eq_Nil_conv)
      next
        case (Cons d r')
        with prem \<open>dropWhile is_ws s = c # r\<close> True show ?thesis
          by (auto simp: jp_value_Suc simp del: dropWhile_eq_Nil_conv dropWhile_eq_Cons_conv intro: IHm IHe)
      qed
    qed
  qed
  have E: "jp_elems (Suc (Suc n)) acc s = Some x" if prem: "jp_elems (Suc n) acc s = Some x" for acc s x
  proof -
    from prem obtain v r where vr: "jp_value n s = Some (v, r)"
      by (auto simp: jp_elems.simps(2) [of n acc s] split: option.splits)
    then have "jp_value (Suc n) s = Some (v, r)" by (rule IHv)
    with vr prem show ?thesis
      unfolding jp_elems.simps(2) [of n acc s] jp_elems.simps(2) [of "Suc n" acc s]
      by (auto split: list.splits if_splits simp del: dropWhile_eq_Nil_conv intro: IHe)
  qed
  have M: "jp_members (Suc (Suc n)) pacc s = Some x" if prem: "jp_members (Suc n) pacc s = Some x" for pacc s x
  proof -
    from prem obtain r k r1 r2 v r3 where
      s: "dropWhile is_ws s = CHR 0x22 # r" and k: "jp_string r = Some (k, r1)"
      and c: "dropWhile is_ws r1 = CHR '':'' # r2" and v: "jp_value n r2 = Some (v, r3)"
      unfolding jp_members.simps(2) [of n pacc s]
      by (auto split: list.splits if_splits option.splits simp del: dropWhile_eq_Nil_conv)
    from v have v': "jp_value (Suc n) r2 = Some (v, r3)" by (rule IHv)
    from prem show ?thesis
      unfolding jp_members.simps(2) [of n pacc s] jp_members.simps(2) [of "Suc n" pacc s]
      by (auto simp: s k c v v' split: list.splits if_splits simp del: dropWhile_eq_Nil_conv intro: IHm)
  qed
  show ?case using V E M by blast
qed

lemma jp_value_fuel_mono: "n \<le> m \<Longrightarrow> jp_value n s = Some x \<Longrightarrow> jp_value m s = Some x"
  by (induction m rule: dec_induct) (use jp_fuel_mono_all in blast)+

lemma jp_elems_fuel_mono: "n \<le> m \<Longrightarrow> jp_elems n acc s = Some x \<Longrightarrow> jp_elems m acc s = Some x"
  by (induction m rule: dec_induct) (use jp_fuel_mono_all in blast)+

lemma jp_members_fuel_mono: "n \<le> m \<Longrightarrow> jp_members n acc s = Some x \<Longrightarrow> jp_members m acc s = Some x"
  by (induction m rule: dec_induct) (use jp_fuel_mono_all in blast)+

subsection \<open>Termination of the parser\<close>

text \<open>Every step of the parser that succeeds consumes input: a string literal its
  closing quote, a value at least its first character, a list of elements or members
  at least its closing bracket.  A value therefore needs at most \<open>2 * length s + 1\<close>
  units of fuel, and more fuel never changes the result.\<close>

lemma cons_fst_SomeD: "cons_fst x y = Some (k, r) \<Longrightarrow> \<exists>k'. y = Some (k', r)"
  by (auto simp: cons_fst_def)

lemma jp_string_step:
  "jp_string (c # cs) = Some (k, r) \<Longrightarrow>
     r = cs \<or> (\<exists>t k'. length t \<le> length cs \<and> jp_string t = Some (k', r))"
  unfolding jp_string.simps(2)
  by (auto split: if_split_asm list.split_asm option.split_asm dest!: cons_fst_SomeD)

lemma jp_string_shorter: "jp_string s = Some (k, r) \<Longrightarrow> length r < length s"
proof (induction "length s" arbitrary: s k rule: less_induct)
  case less
  then obtain c cs where s: "s = c # cs" by (cases s) auto
  from jp_string_step [of c cs k r] less.prems s
  consider "r = cs" | t k' where "length t \<le> length cs" "jp_string t = Some (k', r)" by auto
  then show ?case
  proof cases
    case 1
    then show ?thesis using s by simp
  next
    case 2
    then have "length r < length t" using less.hyps s by fastforce
    with 2 s show ?thesis by simp
  qed
qed

lemma jp_int_part_shorter: "jp_int_part s = Some (n, r) \<Longrightarrow> length r < length s"
  by (auto simp: jp_int_part_def Let_def split: list.splits if_splits)

lemma jp_scalar_shorter: "jp_scalar c r = Some (v, r') \<Longrightarrow> length r' \<le> length r"
  by (auto simp: jp_scalar_def jp_number_def dest!: jp_string_shorter jp_int_part_shorter
      split: if_splits list.splits)

lemma dropWhile_Cons_shorter: "dropWhile P xs = c # r \<Longrightarrow> length r < length xs"
  using length_dropWhile_le [of P xs] by simp

lemma jp_shorter_all:
  "(\<forall>s x r. jp_value n s = Some (x, r) \<longrightarrow> length r < length s) \<and>
   (\<forall>acc s x r. jp_elems n acc s = Some (x, r) \<longrightarrow> length r < length s) \<and>
   (\<forall>acc s x r. jp_members n acc s = Some (x, r) \<longrightarrow> length r < length s)"
proof (induction n)
  case 0
  then show ?case by simp
next
  case (Suc n)
  then have IHv: "\<And>s x r. jp_value n s = Some (x, r) \<Longrightarrow> length r < length s"
    and IHe: "\<And>acc s x r. jp_elems n acc s = Some (x, r) \<Longrightarrow> length r < length s"
    and IHm: "\<And>acc s x r. jp_members n acc s = Some (x, r) \<Longrightarrow> length r < length s"
    by blast+
  have V: "length r < length s" if prem: "jp_value (Suc n) s = Some (x, r)" for s x r
  proof -
    from prem obtain c r0 where s: "dropWhile is_ws s = c # r0"
      by (auto simp: jp_value_Suc split: list.splits)
    have r0: "length r0 < length s" using dropWhile_Cons_shorter [OF s] .
    show ?thesis
    proof (cases "c = CHR ''{'' \<or> c = CHR ''[''")
      case False
      with prem s have "jp_scalar c r0 = Some (x, r)" by (simp add: jp_value_Suc)
      with r0 show ?thesis using jp_scalar_shorter by fastforce
    next
      case True
      with prem s obtain d r' where d: "dropWhile is_ws r0 = d # r'"
        by (auto simp: jp_value_Suc split: list.splits simp del: dropWhile_eq_Nil_conv dropWhile_eq_Cons_conv)
      have "length r' < length r0" using dropWhile_Cons_shorter [OF d] .
      with prem s d True r0 show ?thesis
        by (auto simp: jp_value_Suc split: if_splits dest!: IHm IHe
            simp del: dropWhile_eq_Nil_conv dropWhile_eq_Cons_conv)
    qed
  qed
  have E: "length r < length s" if prem: "jp_elems (Suc n) acc s = Some (x, r)" for acc s x r
  proof -
    from prem obtain v r1 d r' where v: "jp_value n s = Some (v, r1)" and d: "dropWhile is_ws r1 = d # r'"
      by (auto simp: jp_elems.simps(2) [of n acc s] split: option.splits list.splits)
    have "length r1 < length s" using IHv [OF v] .
    moreover have "length r' < length r1" using dropWhile_Cons_shorter [OF d] .
    ultimately show ?thesis using prem v d
      by (auto simp: jp_elems.simps(2) [of n acc s] split: if_splits dest!: IHe)
  qed
  have M: "length r < length s" if prem: "jp_members (Suc n) acc s = Some (x, r)" for acc s x r
  proof -
    from prem obtain r0 k r1 r2 v r3 f r4 where
      s: "dropWhile is_ws s = CHR 0x22 # r0" and k: "jp_string r0 = Some (k, r1)"
      and c: "dropWhile is_ws r1 = CHR '':'' # r2" and v: "jp_value n r2 = Some (v, r3)"
      and f: "dropWhile is_ws r3 = f # r4"
      unfolding jp_members.simps(2) [of n acc s]
      by (auto split: list.splits if_splits option.splits simp del: dropWhile_eq_Nil_conv)
    have "length r4 < length s"
      using dropWhile_Cons_shorter [OF s] jp_string_shorter [OF k] dropWhile_Cons_shorter [OF c]
        IHv [OF v] dropWhile_Cons_shorter [OF f] by linarith
    with prem s k c v f show ?thesis
      unfolding jp_members.simps(2) [of n acc s]
      by (auto split: if_splits simp del: dropWhile_eq_Nil_conv dest!: IHm)
  qed
  show ?case using V E M by blast
qed

lemma jp_fuel_enough_all:
  "(\<forall>s x. 2 * length s + 1 \<le> n \<longrightarrow> jp_value (Suc n) s = Some x \<longrightarrow> jp_value n s = Some x) \<and>
   (\<forall>acc s x. 2 * length s + 2 \<le> n \<longrightarrow> jp_elems (Suc n) acc s = Some x \<longrightarrow> jp_elems n acc s = Some x) \<and>
   (\<forall>acc s x. 2 * length s + 2 \<le> n \<longrightarrow> jp_members (Suc n) acc s = Some x \<longrightarrow> jp_members n acc s = Some x)"
proof (induction n)
  case 0
  then show ?case by simp
next
  case (Suc m)
  then have IHv: "\<And>s x. 2 * length s + 1 \<le> m \<Longrightarrow> jp_value (Suc m) s = Some x \<Longrightarrow> jp_value m s = Some x"
    and IHe: "\<And>acc s x. 2 * length s + 2 \<le> m \<Longrightarrow> jp_elems (Suc m) acc s = Some x \<Longrightarrow> jp_elems m acc s = Some x"
    and IHm: "\<And>acc s x. 2 * length s + 2 \<le> m \<Longrightarrow> jp_members (Suc m) acc s = Some x \<Longrightarrow> jp_members m acc s = Some x"
    by blast+
  have shorter: "\<And>n s x r. jp_value n s = Some (x, r) \<Longrightarrow> length r < length s"
    using jp_shorter_all by blast
  have V: "jp_value (Suc m) s = Some x"
    if b: "2 * length s + 1 \<le> Suc m" and prem: "jp_value (Suc (Suc m)) s = Some x" for s x
  proof (cases "dropWhile is_ws s")
    case Nil
    with prem show ?thesis by (simp add: jp_value_Suc)
  next
    case (Cons c r0)
    have r0: "length r0 < length s" using dropWhile_Cons_shorter [OF Cons] .
    show ?thesis
    proof (cases "c = CHR ''{'' \<or> c = CHR ''[''")
      case False
      with prem Cons show ?thesis by (simp add: jp_value_Suc)
    next
      case True
      show ?thesis
      proof (cases "dropWhile is_ws r0")
        case Nil
        with prem Cons True show ?thesis
          by (auto simp: jp_value_Suc simp del: dropWhile_eq_Nil_conv)
      next
        case (Cons d r')
        have "length (d # r') \<le> length r0" using length_dropWhile_le [of is_ws r0] Cons by simp
        with r0 b have bd: "2 * length (d # r') + 2 \<le> m" by simp
        with prem \<open>dropWhile is_ws s = c # r0\<close> True Cons show ?thesis
          by (auto simp: jp_value_Suc simp del: dropWhile_eq_Nil_conv dropWhile_eq_Cons_conv
              intro: IHm IHe)
      qed
    qed
  qed
  have E: "jp_elems (Suc m) acc s = Some x"
    if b: "2 * length s + 2 \<le> Suc m" and prem: "jp_elems (Suc (Suc m)) acc s = Some x" for acc s x
  proof -
    from prem obtain v r1 d r' where v: "jp_value (Suc m) s = Some (v, r1)"
      and d: "dropWhile is_ws r1 = d # r'"
      by (auto simp: jp_elems.simps(2) [of "Suc m" acc s] split: option.splits list.splits
          simp del: dropWhile_eq_Nil_conv dropWhile_eq_Cons_conv)
    have v': "jp_value m s = Some (v, r1)" using IHv [OF _ v] b by simp
    have "length r' < length r1" using dropWhile_Cons_shorter [OF d] .
    moreover have "length r1 < length s" using shorter [OF v] .
    ultimately have br: "2 * length r' + 2 \<le> m" using b by simp
    from prem v v' d br show ?thesis
      unfolding jp_elems.simps(2) [of "Suc m" acc s] jp_elems.simps(2) [of m acc s]
      by (auto split: if_splits simp del: dropWhile_eq_Nil_conv dropWhile_eq_Cons_conv intro: IHe)
  qed
  have M: "jp_members (Suc m) acc s = Some x"
    if b: "2 * length s + 2 \<le> Suc m" and prem: "jp_members (Suc (Suc m)) acc s = Some x" for acc s x
  proof -
    from prem obtain r0 k r1 r2 v r3 f r4 where
      s: "dropWhile is_ws s = CHR 0x22 # r0" and k: "jp_string r0 = Some (k, r1)"
      and c: "dropWhile is_ws r1 = CHR '':'' # r2" and v: "jp_value (Suc m) r2 = Some (v, r3)"
      and f: "dropWhile is_ws r3 = f # r4"
      unfolding jp_members.simps(2) [of "Suc m" acc s]
      by (auto split: list.splits if_splits option.splits simp del: dropWhile_eq_Nil_conv)
    have l2: "length r2 + 3 \<le> length s"
      using dropWhile_Cons_shorter [OF s] jp_string_shorter [OF k] dropWhile_Cons_shorter [OF c] by linarith
    have v': "jp_value m r2 = Some (v, r3)" using IHv [OF _ v] b l2 by simp
    have "length r4 < length r2" using shorter [OF v] dropWhile_Cons_shorter [OF f] by linarith
    with l2 b have br: "2 * length r4 + 2 \<le> m" by simp
    from prem s k c v v' f br show ?thesis
      unfolding jp_members.simps(2) [of "Suc m" acc s] jp_members.simps(2) [of m acc s]
      by (auto split: if_splits simp del: dropWhile_eq_Nil_conv intro: IHm)
  qed
  show ?case using V E M by blast
qed

lemma jp_value_fuel_enough: "2 * length s + 1 \<le> n \<Longrightarrow> jp_value n s = jp_value (2 * length s + 1) s"
proof (induction n rule: dec_induct)
  case (step n)
  have "jp_value (Suc n) s = jp_value n s"
  proof (cases "jp_value n s")
    case None
    show ?thesis
    proof (cases "jp_value (Suc n) s")
      case (Some x)
      with step.hyps(1) have "jp_value n s = Some x" using jp_fuel_enough_all by blast
      with None show ?thesis by simp
    qed (simp add: None)
  next
    case (Some x)
    then show ?thesis using jp_value_fuel_mono [of n "Suc n" s x] by simp
  qed
  with step.IH show ?case by simp
qed simp

lemma jp_value_scalar_stringify:
  assumes "json_delim r" and "\<forall>vs. v \<noteq> JArr vs" and "\<forall>ps. v \<noteq> JObj ps"
  shows "jp_value (Suc n) (json_stringify v @ r) = Some (v, r)"
proof (cases v)
  case JNull
  then show ?thesis by (simp add: jp_value_Suc is_ws_def jp_scalar_def)
next
  case (JBool b)
  then show ?thesis by (cases b) (simp_all add: jp_value_Suc is_ws_def jp_scalar_def)
next
  case (JStr s)
  then show ?thesis
    by (simp add: json_quote_def jp_value_Suc is_ws_def jp_scalar_def jp_string_quote)
next
  case (JNum i)
  obtain c t where ct: "js_int_string i = c # t"
    using json_stringify_start [of "JNum i"] by auto
  have "\<not> is_ws c" "c \<noteq> CHR ''{''" "c \<noteq> CHR ''[''" "c \<noteq> CHR 0x22" "c \<noteq> CHR ''t''"
      "c \<noteq> CHR ''f''" "c \<noteq> CHR ''n''"
  proof -
    have "c = CHR ''-'' \<or> is_dec_digit c"
    proof (cases "i < 0")
      case True
      then show ?thesis using ct by (simp add: js_int_string_def)
    next
      case False
      with ct have "c \<in> set (dec_string (nat i))" by (simp add: js_int_string_def)
      then show ?thesis using dec_string_digits by blast
    qed
    then show "\<not> is_ws c" "c \<noteq> CHR ''{''" "c \<noteq> CHR ''[''" "c \<noteq> CHR 0x22" "c \<noteq> CHR ''t''"
      "c \<noteq> CHR ''f''" "c \<noteq> CHR ''n''"
      by (auto simp: is_ws_def is_dec_digit_def)
  qed
  with ct JNum show ?thesis
    using jp_number_int [OF assms(1), of i]
    by (simp add: jp_value_Suc jp_scalar_def)
qed (use assms in auto)

lemma json_delim_simps [simp]:
  "json_delim []" "json_delim (CHR '','' # r)" "json_delim (CHR '']'' # r)" "json_delim (CHR ''}'' # r)"
  by (simp_all add: json_delim_def)

lemma is_ws_punct [simp]:
  "\<not> is_ws CHR '',''" "\<not> is_ws CHR '']''" "\<not> is_ws CHR ''}''" "\<not> is_ws CHR '':''"
  "\<not> is_ws CHR ''[''" "\<not> is_ws CHR ''{''" "\<not> is_ws CHR 0x22"
  by (simp_all add: is_ws_def)

lemma jp_elems_stringify:
  assumes "vs \<noteq> []"
    and IH: "\<And>v n r. v \<in> set vs \<Longrightarrow> json_ok v \<Longrightarrow> jfuel v \<le> n \<Longrightarrow> json_delim r \<Longrightarrow>
               jp_value n (json_stringify v @ r) = Some (v, r)"
    and ok: "list_all json_ok vs"
    and fuel: "sum_list (map (\<lambda>v. Suc (jfuel v)) vs) \<le> n"
  shows "jp_elems n acc (join_commas (map json_stringify vs) @ CHR '']'' # r) = Some (JArr (acc @ vs), r)"
  using assms
proof (induction vs arbitrary: acc n)
  case Nil
  then show ?case by simp
next
  case (Cons v vs)
  then obtain m where n: "n = Suc m" and fv: "jfuel v \<le> m"
    and fvs: "sum_list (map (\<lambda>v. Suc (jfuel v)) vs) \<le> m"
    by (cases n) auto
  define rest where "rest = (if vs = [] then [] else CHR '','' # join_commas (map json_stringify vs)) @ CHR '']'' # r"
  have delim: "json_delim rest" by (simp add: rest_def)
  have v: "jp_value m (json_stringify v @ rest) = Some (v, rest)"
    using Cons.prems(2) [of v m rest] Cons.prems(3) fv delim by simp
  have eq: "join_commas (map json_stringify (v # vs)) @ CHR '']'' # r = json_stringify v @ rest"
    by (simp add: rest_def join_commas_Cons)
  show ?case
  proof (cases "vs = []")
    case True
    with v show ?thesis unfolding eq n by (simp add: jp_elems.simps(2) rest_def)
  next
    case False
    have "jp_elems m (acc @ [v]) (join_commas (map json_stringify vs) @ CHR '']'' # r)
        = Some (JArr ((acc @ [v]) @ vs), r)"
      using Cons.IH [OF False] Cons.prems(2,3) fvs by simp
    with v False show ?thesis unfolding eq n by (simp add: jp_elems.simps(2) rest_def)
  qed
qed

lemma jp_members_stringify:
  assumes "ps \<noteq> []"
    and IH: "\<And>k v n r. (k, v) \<in> set ps \<Longrightarrow> json_ok v \<Longrightarrow> jfuel v \<le> n \<Longrightarrow> json_delim r \<Longrightarrow>
               jp_value n (json_stringify v @ r) = Some (v, r)"
    and ok: "list_all (\<lambda>(k, v). json_ok v) ps"
    and fuel: "sum_list (map (\<lambda>(k, v). Suc (jfuel v)) ps) \<le> n"
  shows "jp_members n acc
           (join_commas (map (\<lambda>(k, v). json_quote k @ CHR '':'' # json_stringify v) ps) @ CHR ''}'' # r)
         = Some (JObj (js_object (acc @ ps)), r)"
  using assms
proof (induction ps arbitrary: acc n)
  case Nil
  then show ?case by simp
next
  case (Cons p ps)
  obtain k v where p: "p = (k, v)" by (cases p)
  from Cons.prems p obtain m where n: "n = Suc m" and fv: "jfuel v \<le> m"
    and fps: "sum_list (map (\<lambda>(k, v). Suc (jfuel v)) ps) \<le> m"
    by (cases n) auto
  define mem where "mem = (\<lambda>(k, v). json_quote k @ CHR '':'' # json_stringify v)"
  define rest where "rest = (if ps = [] then [] else CHR '','' # join_commas (map mem ps)) @ CHR ''}'' # r"
  have delim: "json_delim rest" by (simp add: rest_def)
  have v: "jp_value m (json_stringify v @ rest) = Some (v, rest)"
    using Cons.prems(2) [of k v m rest] Cons.prems(3) p fv delim by simp
  have eq: "join_commas (map mem (p # ps)) @ CHR ''}'' # r
      = CHR 0x22 # concat (map quote_char k) @ CHR 0x22 # CHR '':'' # json_stringify v @ rest"
    by (simp add: rest_def join_commas_Cons p mem_def json_quote_def)
  have str: "jp_string (concat (map quote_char k) @ CHR 0x22 # CHR '':'' # json_stringify v @ rest)
      = Some (k, CHR '':'' # json_stringify v @ rest)"
    by (rule jp_string_quote)
  show ?case
  proof (cases "ps = []")
    case True
    with v str show ?thesis unfolding mem_def [symmetric] eq n
      by (simp add: jp_members.simps(2) rest_def p)
  next
    case False
    have "jp_members m (acc @ [(k, v)]) (join_commas (map mem ps) @ CHR ''}'' # r)
        = Some (JObj (js_object ((acc @ [(k, v)]) @ ps)), r)"
    proof -
      have okps: "list_all (\<lambda>(k, v). json_ok v) ps" using Cons.prems(3) by simp
      have IHps: "\<And>k v n r. (k, v) \<in> set ps \<Longrightarrow> json_ok v \<Longrightarrow> jfuel v \<le> n \<Longrightarrow> json_delim r \<Longrightarrow>
          jp_value n (json_stringify v @ r) = Some (v, r)"
        using Cons.prems(2) by auto
      show ?thesis using Cons.IH [OF False IHps okps fps] by (simp add: mem_def)
    qed
    with v str False show ?thesis unfolding mem_def [symmetric] eq n
      by (simp add: jp_members.simps(2) rest_def p)
  qed
qed

lemma jp_value_scalar_fuel:
  "json_delim r \<Longrightarrow> \<forall>vs. v \<noteq> JArr vs \<Longrightarrow> \<forall>ps. v \<noteq> JObj ps \<Longrightarrow> jfuel v \<le> n \<Longrightarrow>
     jp_value n (json_stringify v @ r) = Some (v, r)"
proof -
  assume "json_delim r" "\<forall>vs. v \<noteq> JArr vs" "\<forall>ps. v \<noteq> JObj ps" "jfuel v \<le> n"
  moreover from this obtain m where "n = Suc m" by (cases n; cases v) auto
  ultimately show ?thesis using jp_value_scalar_stringify by blast
qed

lemma jp_value_stringify:
  "json_ok v \<Longrightarrow> jfuel v \<le> n \<Longrightarrow> json_delim r \<Longrightarrow> jp_value n (json_stringify v @ r) = Some (v, r)"
proof (induction v arbitrary: n r)
  case (JArr vs)
  then obtain m where n: "n = Suc m" and fm: "sum_list (map (\<lambda>v. Suc (jfuel v)) vs) \<le> m"
    by (cases n) auto
  show ?case
  proof (cases "vs = []")
    case True
    then show ?thesis by (simp add: n jp_value_Suc)
  next
    case False
    obtain c t where ct: "join_commas (map json_stringify vs) @ CHR '']'' # r = c # t" and "\<not> is_ws c"
      "c \<noteq> CHR '']''"
      using json_stringify_start [of "hd vs"] False by (cases vs) (auto simp: join_commas_Cons)
    moreover have "jp_elems m [] (join_commas (map json_stringify vs) @ CHR '']'' # r) = Some (JArr vs, r)"
      using jp_elems_stringify [OF False _ _ fm, where acc = "[]" and r = r] JArr by simp
    ultimately show ?thesis by (simp add: n jp_value_Suc)
  qed
next
  case (JObj ps)
  then obtain m where n: "n = Suc m" and fm: "sum_list (map (\<lambda>(k, v). Suc (jfuel v)) ps) \<le> m"
    by (cases n) auto
  show ?case
  proof (cases "ps = []")
    case True
    then show ?thesis by (simp add: n jp_value_Suc)
  next
    case False
    obtain k v ps' where ps: "ps = (k, v) # ps'" using False by (cases ps) auto
    have IH: "\<And>k v n r. (k, v) \<in> set ps \<Longrightarrow> json_ok v \<Longrightarrow> jfuel v \<le> n \<Longrightarrow> json_delim r \<Longrightarrow>
        jp_value n (json_stringify v @ r) = Some (v, r)"
      using JObj.IH by fastforce
    have "jp_members m [] (join_commas (map (\<lambda>(k, v). json_quote k @ CHR '':'' # json_stringify v) ps)
        @ CHR ''}'' # r) = Some (JObj (js_object ps), r)"
      using jp_members_stringify [OF False IH _ fm, where acc = "[]" and r = r] JObj.prems by simp
    then show ?thesis using JObj.prems(1) ps
      by (simp add: n jp_value_Suc join_commas_Cons json_quote_def)
  qed
next
  case JNull
  then show ?case by (intro jp_value_scalar_fuel) simp_all
next
  case (JBool b)
  then show ?case by (intro jp_value_scalar_fuel) simp_all
next
  case (JNum i)
  then show ?case by (intro jp_value_scalar_fuel) simp_all
next
  case (JStr s)
  then show ?case by (intro jp_value_scalar_fuel) simp_all
qed

lemma length_join_commas:
  "length (join_commas xs) = sum_list (map length xs) + (length xs - 1)"
  by (induction xs rule: join_commas.induct) simp_all

lemma jfuel_le_length: "jfuel v \<le> length (json_stringify v)"
proof (induction v)
  case (JArr vs)
  have "sum_list (map (\<lambda>v. Suc (jfuel v)) vs) \<le> sum_list (map (\<lambda>v. Suc (length (json_stringify v))) vs)"
    using JArr.IH by (intro sum_list_mono) simp
  then show ?case by (cases "vs = []") (auto simp: length_join_commas sum_list_Suc comp_def)
next
  case (JObj ps)
  have "sum_list (map (\<lambda>(k, v). Suc (jfuel v)) ps)
      \<le> sum_list (map (\<lambda>(k, v). Suc (length (json_stringify v))) ps)"
    using JObj.IH by (intro sum_list_mono) fastforce
  also have "\<dots> \<le> sum_list (map (length \<circ> (\<lambda>(k, v). json_quote k @ CHR '':'' # json_stringify v)) ps)"
    by (intro sum_list_mono) (auto simp: json_quote_def)
  finally show ?case by (cases "ps = []") (auto simp: length_join_commas sum_list_Suc comp_def)
next
  case (JNum i)
  then show ?case using json_stringify_start [of "JNum i"] by auto
qed (simp_all add: json_quote_def)

theorem JSON_parse_stringify: "json_ok v \<Longrightarrow> JSON_parse (json_stringify v) = Some v"
proof -
  assume ok: "json_ok v"
  have "jfuel v \<le> 2 * length (json_stringify v) + 1" using jfuel_le_length [of v] by simp
  from jp_value_stringify [OF ok this, of "[]"] show ?thesis by (simp add: JSON_parse_def)
qed


subsection \<open>Objects: own-key order\<close>

lemma map_fst_assoc_update:
  "map fst (map (\<lambda>(k', v'). if k' = k then (k', v) else (k', v')) ps) = map fst ps"
  by (induction ps) auto

lemma assoc_set_keys:
  "map fst (assoc_set ps k v) = (if k \<in> set (map fst ps) then map fst ps else map fst ps @ [k])"
proof (cases "k \<in> set (map fst ps)")
  case True
  then have eq: "assoc_set ps k v = map (\<lambda>(k', v'). if k' = k then (k', v) else (k', v')) ps"
    by (simp add: assoc_set_def)
  show ?thesis by (simp only: eq map_fst_assoc_update True if_True)
next
  case False
  then show ?thesis by (simp add: assoc_set_def)
qed

lemma assoc_set_distinct: "distinct (map fst ps) \<Longrightarrow> distinct (map fst (assoc_set ps k v))"
  by (simp add: assoc_set_keys)

lemma assoc_set_new: "k \<notin> set (map fst ps) \<Longrightarrow> assoc_set ps k v = ps @ [(k, v)]"
  by (simp add: assoc_set_def)

lemma fold_assoc_set_distinct:
  "distinct (map fst (acc @ ps)) \<Longrightarrow> fold (\<lambda>(k, v) acc. assoc_set acc k v) ps acc = acc @ ps"
proof (induction ps arbitrary: acc)
  case Nil
  then show ?case by simp
next
  case (Cons p ps)
  obtain k v where p: "p = (k, v)" by (cases p)
  with Cons.prems have "k \<notin> set (map fst acc)" by auto
  then have "assoc_set acc k v = acc @ [(k, v)]" by (rule assoc_set_new)
  with Cons.IH [of "acc @ [(k, v)]"] Cons.prems p show ?case by simp
qed

lemma assoc_of_list_distinct: "distinct (map fst ps) \<Longrightarrow> assoc_of_list ps = ps"
  using fold_assoc_set_distinct [of "[]" ps] by (simp add: assoc_of_list_def)

lemma assoc_of_list_keys_distinct: "distinct (map fst (assoc_of_list ps))"
proof -
  have "distinct (map fst acc) \<Longrightarrow> distinct (map fst (fold (\<lambda>(k, v) acc. assoc_set acc k v) ps acc))" for acc
    by (induction ps arbitrary: acc) (auto simp: assoc_set_distinct)
  then show ?thesis by (simp add: assoc_of_list_def)
qed

lemma mset_own_order: "mset (own_order ps) = mset ps"
  by (simp add: own_order_def)

lemma own_order_distinct: "distinct (map fst ps) \<Longrightarrow> distinct (map fst (own_order ps))"
  by (metis mset_own_order mset_map mset_eq_imp_distinct_iff)

lemma own_order_idem: "own_order (own_order ps) = own_order ps"
proof -
  let ?f = "\<lambda>p. digits_value (fst p)" and ?i = "\<lambda>p. is_array_index (fst p)"
  have a: "filter ?i (own_order ps) = sort_key ?f (filter ?i ps)"
    by (simp add: own_order_def filter_sort)
  have b: "filter (\<lambda>p. \<not> ?i p) (own_order ps) = filter (\<lambda>p. \<not> ?i p) ps"
    by (simp add: own_order_def filter_sort)
  have c: "sort_key ?f (sort_key ?f (filter ?i ps)) = sort_key ?f (filter ?i ps)"
    by (simp add: sort_key_id_if_sorted)
  have "own_order (own_order ps) = sort_key ?f (filter ?i (own_order ps)) @ filter (\<lambda>p. \<not> ?i p) (own_order ps)"
    by (simp only: own_order_def [of "own_order ps"])
  also have "\<dots> = own_order ps"
    by (simp only: a b c) (simp add: own_order_def)
  finally show ?thesis .
qed

lemma js_object_idem: "js_object (js_object ps) = js_object ps"
  by (simp add: js_object_def assoc_of_list_distinct own_order_distinct assoc_of_list_keys_distinct
      own_order_idem)

lemma own_order_index_perm:
  assumes idx: "\<forall>p \<in> set xs. is_array_index (fst p)"
    and perm: "mset xs = mset ys"
    and inj: "inj_on (\<lambda>p. digits_value (fst p)) (set xs)"
  shows "own_order xs = own_order ys"
proof -
  let ?f = "\<lambda>p. digits_value (fst p)"
  have sets: "set ys = set xs" using perm by (metis set_mset_mset)
  have "sort_key ?f xs = sort_key ?f ys"
    using sort_key_inj_key_eq [of xs "sort_key ?f ys" ?f] perm inj by simp
  moreover have "filter (\<lambda>p. is_array_index (fst p)) xs = xs"
    "filter (\<lambda>p. is_array_index (fst p)) ys = ys"
    "filter (\<lambda>p. \<not> is_array_index (fst p)) xs = []"
    "filter (\<lambda>p. \<not> is_array_index (fst p)) ys = []"
    using idx sets by (simp_all add: filter_id_conv)
  ultimately show ?thesis by (simp add: own_order_def)
qed


lemma map_of_assoc_update:
  "map_of (map (\<lambda>(k', v'). if k' = k then (k', v) else (k', v')) ps) = (map_of ps)(k := (if k \<in> fst ` set ps then Some v else None))"
  by (induction ps) (auto simp: fun_eq_iff)

lemma map_of_assoc_set [simp]: "map_of (assoc_set ps k v) = (map_of ps)(k \<mapsto> v)"
proof (cases "k \<in> fst ` set ps")
  case True
  then show ?thesis by (simp add: assoc_set_def map_of_assoc_update)
next
  case False
  then have "map_of ps k = None" by (simp add: map_of_eq_None_iff)
  with False show ?thesis by (auto simp: assoc_set_def map_of_append fun_eq_iff map_add_def split: option.splits)
qed

lemma assoc_set_values: "snd ` set (assoc_set ps k v) \<subseteq> insert v (snd ` set ps)"
  by (auto simp: assoc_set_def split: if_splits)

lemma assoc_of_list_values: "snd ` set (assoc_of_list ps) \<subseteq> snd ` set ps"
proof -
  have "snd ` set (fold (\<lambda>(k, v) acc. assoc_set acc k v) ps acc) \<subseteq> snd ` set acc \<union> snd ` set ps" for acc
  proof (induction ps arbitrary: acc)
    case (Cons p ps)
    show ?case using Cons.IH [of "assoc_set acc (fst p) (snd p)"] assoc_set_values [of acc "fst p" "snd p"]
      by (cases p) auto
  qed simp
  from this [of "[]"] show ?thesis by (simp add: assoc_of_list_def)
qed

lemma js_object_values: "snd ` set (js_object ps) \<subseteq> snd ` set ps"
  using assoc_of_list_values [of ps] mset_own_order [of "assoc_of_list ps"]
  by (simp add: js_object_def) (metis set_mset_mset)

lemma set_assoc_set: "set (assoc_set ps k v) \<subseteq> insert (k, v) (set ps)"
  by (auto simp: assoc_set_def split: if_splits)

lemma set_assoc_of_list: "set (assoc_of_list ps) \<subseteq> set ps"
proof -
  have "set (fold (\<lambda>(k, v) acc. assoc_set acc k v) ps acc) \<subseteq> set acc \<union> set ps" for acc
  proof (induction ps arbitrary: acc)
    case (Cons p ps)
    show ?case using Cons.IH [of "assoc_set acc (fst p) (snd p)"] set_assoc_set [of acc "fst p" "snd p"]
      by (cases p) auto
  qed simp
  from this [of "[]"] show ?thesis by (simp add: assoc_of_list_def)
qed

lemma set_js_object: "set (js_object ps) \<subseteq> set ps"
  using set_assoc_of_list [of ps] mset_own_order [of "assoc_of_list ps"]
  by (simp add: js_object_def) (metis set_mset_mset)

lemma js_object_keys_distinct: "distinct (map fst (js_object ps))"
  by (simp add: js_object_def own_order_distinct assoc_of_list_keys_distinct)

lemma mset_js_object_distinct: "distinct (map fst ps) \<Longrightarrow> mset (js_object ps) = mset ps"
  by (simp add: js_object_def assoc_of_list_distinct mset_own_order)

lemma js_int_string_small:
  "js_int_string 0 = ''0''" "js_int_string 1 = ''1''" "js_int_string 2 = ''2''"
  "js_int_string 3 = ''3''" "js_int_string 4 = ''4''"
  by (simp_all add: js_int_string_def dec_string_small digit_char_def char_of_eq_iff take_bit_eq_mod)

lemma small_index_keys [simp]:
  "is_array_index ''0''" "is_array_index ''1''" "is_array_index ''2''" "is_array_index ''3''"
  "is_array_index ''4''"
  "digits_value ''0'' = 0" "digits_value ''1'' = 1" "digits_value ''2'' = 2" "digits_value ''3'' = 3"
  "digits_value ''4'' = 4"
  by (simp_all add: is_array_index_def is_dec_digit_def digit_val_def)

end
