(* ===== verification/Base64.thy ===== *)
theory Base64
  imports Prelude
begin

text \<open>
  The byte-level encoders the token code calls through crypto-js
  (\<open>CryptoJS.enc.Base64\<close> and \<open>CryptoJS.enc.Utf8\<close>).  They are library code,
  outside \<open>src/\<close>, modelled from crypto-js's algorithm: \<open>base64_stringify\<close>
  emits one character per six bits and pads with \<open>=\<close> to a multiple of four;
  \<open>base64_parse\<close> follows crypto-js's \<open>parse\<close>/\<open>parseLoop\<close>, which stops at the
  first \<open>=\<close>, reads an unknown character as 0 and keeps, for each character after
  the first of a quadruple, one byte made of the previous character's low bits and
  this character's high bits.  The decoder is therefore lenient: the low bits of
  the last character before the padding, and everything after the first \<open>=\<close>,
  are never read.  \<open>utf8_parse\<close> encodes each character (a code point below 256)
  in UTF-8, \<open>utf8_stringify\<close> decodes and fails where crypto-js throws
  \<open>Malformed UTF-8 data\<close>.
\<close>

subsection \<open>Base64\<close>

definition b64_map :: string where
  "b64_map = ''ABCDEFGHIJKLMNOPQRSTUVWXYZabcdefghijklmnopqrstuvwxyz0123456789+/''"

definition b64_char :: "nat \<Rightarrow> char" where
  "b64_char n = b64_map ! n"

text \<open>\<open>reverseMap[c]\<close>; a character outside the alphabet is \<open>undefined\<close> there,
  which the shifts of \<open>parseLoop\<close> turn into 0.\<close>

definition b64_val :: "char \<Rightarrow> nat" where
  "b64_val c = (let n = (of_char c :: nat) in
     if 65 \<le> n \<and> n \<le> 90 then n - 65
     else if 97 \<le> n \<and> n \<le> 122 then n - 71
     else if 48 \<le> n \<and> n \<le> 57 then n + 4
     else if n = 43 then 62
     else if n = 47 then 63
     else 0)"

fun base64_stringify :: "bytes \<Rightarrow> string" where
  "base64_stringify [] = []"
| "base64_stringify [a] =
     [b64_char (a div 4), b64_char (a mod 4 * 16), CHR ''='', CHR ''='']"
| "base64_stringify [a, b] =
     [b64_char (a div 4), b64_char (a mod 4 * 16 + b div 16), b64_char (b mod 16 * 4), CHR ''='']"
| "base64_stringify (a # b # c # rest) =
     [b64_char (a div 4), b64_char (a mod 4 * 16 + b div 16),
      b64_char (b mod 16 * 4 + c div 64), b64_char (c mod 64)] @ base64_stringify rest"

text \<open>\<open>parseLoop\<close>: position \<open>i\<close>, the value of the previous character, the input.\<close>

fun parseLoop :: "nat \<Rightarrow> nat \<Rightarrow> string \<Rightarrow> bytes" where
  "parseLoop i prev [] = []"
| "parseLoop i prev (c # cs) =
     (if i mod 4 = 0 then parseLoop (Suc i) (b64_val c) cs
      else ((prev * 4 ^ (i mod 4) + b64_val c div 4 ^ (3 - i mod 4)) mod 256)
           # parseLoop (Suc i) (b64_val c) cs)"

definition base64_parse :: "string \<Rightarrow> bytes" where
  "base64_parse s = parseLoop 0 0 (takeWhile (\<lambda>c. c \<noteq> CHR ''='') s)"

subsection \<open>UTF-8\<close>

definition utf8_char :: "char \<Rightarrow> bytes" where
  "utf8_char c = (let n = (of_char c :: nat) in
     if n < 128 then [n] else [192 + n div 64, 128 + n mod 64])"

definition utf8_parse :: "string \<Rightarrow> bytes" where
  "utf8_parse s = concat (map utf8_char s)"

fun utf8_stringify :: "bytes \<Rightarrow> string option" where
  "utf8_stringify [] = Some []"
| "utf8_stringify (b # bs) =
     (if b < 128 then map_option (Cons (char_of b)) (utf8_stringify bs)
      else if b = 194 \<or> b = 195 then
        (case bs of
          [] \<Rightarrow> None
        | c # bs' \<Rightarrow>
            if 128 \<le> c \<and> c < 192
            then map_option (Cons (char_of ((b - 192) * 64 + (c - 128)))) (utf8_stringify bs')
            else None)
      else None)"

text \<open>Strings of 7-bit characters, whose UTF-8 form is one byte per character.\<close>

definition ascii :: "string \<Rightarrow> bool" where
  "ascii s \<longleftrightarrow> (\<forall>c \<in> set s. (of_char c :: nat) < 128)"

subsection \<open>Alphabet facts\<close>

lemma b64_val_char_all: "map (b64_val \<circ> b64_char) [0..<64] = [0..<64]"
  by (simp add: b64_char_def b64_map_def b64_val_def upt_rec)

lemma b64_val_char [simp]: "n < 64 \<Longrightarrow> b64_val (b64_char n) = n"
  using nth_map [of n "[0..<64]" "b64_val \<circ> b64_char", unfolded b64_val_char_all] by simp

lemma b64_char_in_map: "n < 64 \<Longrightarrow> b64_char n \<in> set b64_map"
  unfolding b64_char_def by (rule nth_mem) (simp add: b64_map_def)

lemma b64_char_not_pad [simp]: "n < 64 \<Longrightarrow> b64_char n \<noteq> CHR ''=''"
proof
  assume "n < 64" and "b64_char n = CHR ''=''"
  then have "CHR ''='' \<in> set b64_map" using b64_char_in_map by metis
  then show False by (simp add: b64_map_def)
qed

subsection \<open>Round trips and leniency\<close>
lemma div_low_add: "x < k \<Longrightarrow> (y * k + x) div k = (y::nat)"
  by simp

lemma b64_byte1: "a < 256 \<Longrightarrow> x < 16 \<Longrightarrow>
    (a div 4 * 4 + (a mod 4 * 16 + x) div 16) mod 256 = (a::nat)"
proof -
  assume a: "a < 256" and x: "x < 16"
  from x have "(a mod 4 * 16 + x) div 16 = a mod 4" by (rule div_low_add)
  then show ?thesis using a by simp
qed

lemma b64_byte2: "b < 256 \<Longrightarrow> x < 4 \<Longrightarrow>
    ((y * 16 + b div 16) * 16 + (b mod 16 * 4 + x) div 4) mod 256 = (b::nat)"
proof -
  assume b: "b < 256" and x: "x < 4"
  from x have d: "(b mod 16 * 4 + x) div 4 = b mod 16" by (rule div_low_add)
  have "(y * 16 + b div 16) * 16 + b mod 16 = y * 256 + b"
    by (simp add: algebra_simps)
  then show ?thesis using b d by simp
qed

lemma b64_byte3: "c < 256 \<Longrightarrow>
    ((y * 4 + c div 64) * 64 + c mod 64) mod 256 = (c::nat)"
proof -
  assume c: "c < 256"
  have "(y * 4 + c div 64) * 64 + c mod 64 = y * 256 + c"
    by (simp add: algebra_simps)
  then show ?thesis using c by simp
qed

lemma parseLoop_shift: "parseLoop (i + 4) p s = parseLoop i p s"
proof (induction s arbitrary: i p)
  case Nil
  then show ?case by simp
next
  case (Cons c cs)
  have m: "(i + 4) mod 4 = i mod 4" by simp
  have s: "Suc (i + 4) = Suc i + 4" by simp
  show ?case by (simp only: parseLoop.simps m s Cons.IH)
qed

lemma parseLoop_Suc4 [simp]: "parseLoop (Suc (Suc (Suc (Suc i)))) p s = parseLoop i p s"
  using parseLoop_shift [of i p s] by (simp add: numeral_eq_Suc)

lemma b64_sextets:
  assumes "a < 256" "b < 256" "(c::nat) < 256"
  shows "a div 4 < 64" "a mod 4 * 16 + b div 16 < 64" "b mod 16 * 4 + c div 64 < 64"
    "c mod 64 < 64" "a mod 4 * 16 < 64" "b mod 16 * 4 < 64"
  using assms by linarith+

lemma parseLoop_triple:
  assumes "a < 256" "b < 256" "c < 256"
  shows "parseLoop 0 p ([b64_char (a div 4), b64_char (a mod 4 * 16 + b div 16),
      b64_char (b mod 16 * 4 + c div 64), b64_char (c mod 64)] @ rest)
    = [a, b, c] @ parseLoop 0 (c mod 64) rest"
proof -
  have "c div 64 < 4" "b div 16 < 16" using assms by linarith+
  then show ?thesis
    using b64_sextets [OF assms] assms
    by (simp add: b64_byte1 b64_byte2 b64_byte3)
qed

lemma parseLoop_stringify:
  "bytes_ok bs \<Longrightarrow> parseLoop 0 p (takeWhile (\<lambda>c. c \<noteq> CHR ''='') (base64_stringify bs)) = bs"
proof (induction bs arbitrary: p rule: base64_stringify.induct)
  case 1
  then show ?case by simp
next
  case (2 a)
  then have "a < 256" by simp
  then have "a div 4 < 64" "a mod 4 * 16 < 64" by linarith+
  with \<open>a < 256\<close> show ?case by simp
next
  case (3 a b)
  then have lt: "a < 256" "b < 256" by simp_all
  then have "b div 16 < 16" by linarith
  then have "a div 4 * 4 + (a mod 4 * 16 + b div 16) div 16 = a" by simp
  moreover have "((a mod 4 * 16 + b div 16) * 16 + b mod 16 * 4 div 4) mod 256 = b"
    using b64_byte2 [OF lt(2), of 0 "a mod 4"] by simp
  ultimately show ?case using b64_sextets [OF lt lt(2)] lt by simp
next
  case (4 a b c rest)
  then have lt: "a < 256" "b < 256" "c < 256" and ok: "bytes_ok rest" by simp_all
  show ?case
    using b64_sextets [OF lt] parseLoop_triple [OF lt, of p "takeWhile (\<lambda>c. c \<noteq> CHR ''='') (base64_stringify rest)"]
      "4.IH" [OF ok] by simp
qed

lemma base64_parse_stringify [roundtrip_simps]:
  "bytes_ok bs \<Longrightarrow> base64_parse (base64_stringify bs) = bs"
  by (simp add: base64_parse_def parseLoop_stringify)

lemma base64_stringify_append:
  "length xs mod 3 = 0 \<Longrightarrow> base64_stringify (xs @ ys) = base64_stringify xs @ base64_stringify ys"
  by (induction xs rule: base64_stringify.induct) simp_all

lemma length_base64_stringify:
  "length (base64_stringify bs) = 4 * ((length bs + 2) div 3)"
proof (induction bs rule: base64_stringify.induct)
  case (4 a b c rest)
  then show ?case by simp presburger
qed simp_all

lemma base64_parse_after_pad:
  "base64_parse (u @ CHR ''='' # w) = base64_parse (u @ CHR ''='' # w')"
proof -
  have "takeWhile (\<lambda>c. c \<noteq> CHR ''='') (u @ CHR ''='' # w) =
        takeWhile (\<lambda>c. c \<noteq> CHR ''='') (u @ CHR ''='' # w')"
    by (induction u) simp_all
  then show ?thesis by (simp add: base64_parse_def)
qed

lemma utf8_char_bytes_ok: "bytes_ok (utf8_char c)"
proof -
  have "(of_char c :: nat) < 256" using of_char_mod_256 [of c] by (metis mod_less_divisor zero_less_numeral)
  moreover have "(of_char c :: nat) mod 64 < 64" by simp
  ultimately have "(of_char c :: nat) div 64 < 64" "(of_char c :: nat) mod 64 < 128" by linarith+
  then show ?thesis by (simp add: utf8_char_def Let_def)
qed

lemma bytes_ok_utf8_parse [simp]: "bytes_ok (utf8_parse s)"
  by (simp add: utf8_parse_def utf8_char_bytes_ok)

lemma utf8_parse_simps [simp]:
  "utf8_parse [] = []"
  "utf8_parse (c # s) = utf8_char c @ utf8_parse s"
  "utf8_parse (s @ t) = utf8_parse s @ utf8_parse t"
  by (simp_all add: utf8_parse_def)

lemma utf8_stringify_char: "utf8_stringify (utf8_char c @ bs) = map_option (Cons c) (utf8_stringify bs)"
proof -
  define n where "n = (of_char c :: nat)"
  have n256: "n < 256" unfolding n_def using of_char_mod_256 [of c] by (metis mod_less_divisor zero_less_numeral)
  have cn: "char_of n = c" by (simp add: n_def)
  show ?thesis
  proof (cases "n < 128")
    case True
    then show ?thesis by (simp add: utf8_char_def n_def [symmetric] cn)
  next
    case False
    then have hi: "n div 64 = 2 \<or> n div 64 = 3" using n256 by linarith
    have "(192 + n div 64 - 192) * 64 + (128 + n mod 64 - 128) = n" by simp
    then show ?thesis using False hi
      by (auto simp add: utf8_char_def n_def [symmetric] cn)
  qed
qed

lemma utf8_stringify_parse [roundtrip_simps]: "utf8_stringify (utf8_parse s) = Some s"
  by (induction s) (simp_all add: utf8_stringify_char)

lemma utf8_parse_ascii: "ascii u \<Longrightarrow> utf8_parse u = map of_char u"
  by (induction u) (simp_all add: ascii_def utf8_char_def)

end
