(* ===== verification/Token.thy ===== *)
theory Token
  imports Json Base64 Complex_Main "HOL-Library.Word"
begin

text \<open>
  The token builder and canonical packer of \<open>src/rtc/RTCTokenHelper.ts\<close>: the
  \<open>Privileges\<close> enum, the fields of class \<open>AccessToken\<close> as a record, its
  constructor, \<open>addPrivilege\<close>, \<open>expireTime\<close>, \<open>packMsg\<close> and \<open>hmacSign\<close>.
  Methods that mutate \<open>this\<close> return the updated record.  The clock
  (\<open>Date.now()\<close>, in milliseconds) and \<open>Math.random()\<close> are inputs of the
  constructor.  HMAC-SHA256 is crypto-js library code and is a parameter \<open>H\<close> of
  the signing functions: a function from the UTF-8 bytes of the message and of the
  key to the digest's bytes.
\<close>

subsection \<open>Constants, privileges, the token record\<close>

definition VERSION :: string where
  "VERSION = ''001''"

definition APP_ID_LENGTH :: nat where
  "APP_ID_LENGTH = 24"

definition VERSION_LENGTH :: nat where
  "VERSION_LENGTH = length VERSION"

datatype Privileges =
    PrivPublishStream
  | privPublishAudioStream
  | privPublishVideoStream
  | privPublishDataStream
  | PrivSubscribeStream

text \<open>The enum's numeric values, which are the keys of the privilege map.\<close>

fun priv_code :: "Privileges \<Rightarrow> int" where
  "priv_code PrivPublishStream = 0"
| "priv_code privPublishAudioStream = 1"
| "priv_code privPublishVideoStream = 2"
| "priv_code privPublishDataStream = 3"
| "priv_code PrivSubscribeStream = 4"

text \<open>The fields of \<open>AccessToken\<close>; \<open>privileges\<close> is the \<open>Map<number, number>\<close>
  as its entries in insertion order.\<close>

record AccessToken =
  appId :: string
  appKey :: string
  roomId :: string
  userId :: string
  issuedAt :: int
  nonce :: int
  expireAt :: int
  privileges :: "(int \<times> int) list"
  signature :: string

type_synonym hmac_sha256 = "bytes \<Rightarrow> bytes \<Rightarrow> 8 word list"

text \<open>\<open>constructor(appId, appKey, roomId, userId)\<close>, with the clock reading
  \<open>now_ms\<close> and the value \<open>rnd\<close> of \<open>Math.random()\<close>.\<close>

definition new_AccessToken ::
  "string \<Rightarrow> string \<Rightarrow> string \<Rightarrow> string \<Rightarrow> int \<Rightarrow> real \<Rightarrow> AccessToken" where
  "new_AccessToken appId' appKey' roomId' userId' now_ms rnd =
     \<lparr>appId = appId', appKey = appKey', roomId = roomId', userId = userId',
      issuedAt = now_ms div 1000, nonce = \<lfloor>rnd * 1000000000\<rfloor>,
      expireAt = 0, privileges = [], signature = []\<rparr>"

definition Version :: string where
  "Version = VERSION"

subsection \<open>Builder operations\<close>

definition addPrivilege :: "AccessToken \<Rightarrow> Privileges \<Rightarrow> int \<Rightarrow> AccessToken" where
  "addPrivilege t privilege expireTimestamp =
     (let t1 = t\<lparr>privileges := assoc_set (privileges t) (priv_code privilege) expireTimestamp\<rparr>
      in if privilege = PrivPublishStream then
           t1\<lparr>privileges :=
                assoc_set
                  (assoc_set
                    (assoc_set (privileges t1) (priv_code privPublishAudioStream) expireTimestamp)
                    (priv_code privPublishVideoStream) expireTimestamp)
                  (priv_code privPublishDataStream) expireTimestamp\<rparr>
         else t1)"

definition expireTime :: "AccessToken \<Rightarrow> int \<Rightarrow> AccessToken" where
  "expireTime t e = t\<lparr>expireAt := e\<rparr>"

subsection \<open>Canonical packing and signing\<close>

text \<open>\<open>Object.fromEntries(this.privileges)\<close>: the property keys are the numbers'
  strings, in own-key order.\<close>

definition privilege_entries :: "(int \<times> int) list \<Rightarrow> (string \<times> json) list" where
  "privilege_entries ps = map (\<lambda>(k, v). (js_int_string k, JNum v)) ps"

definition privileges_object :: "(int \<times> int) list \<Rightarrow> (string \<times> json) list" where
  "privileges_object ps = js_object (privilege_entries ps)"

definition msg_json :: "AccessToken \<Rightarrow> json" where
  "msg_json t = JObj
     [(''nonce'', JNum (nonce t)),
      (''issuedAt'', JNum (issuedAt t)),
      (''expireAt'', JNum (expireAt t)),
      (''roomID'', JStr (roomId t)),
      (''userID'', JStr (userId t)),
      (''privileges'', JObj (privileges_object (privileges t)))]"

definition packMsg :: "AccessToken \<Rightarrow> string" where
  "packMsg t = json_stringify (msg_json t)"

text \<open>\<open>CryptoJS.enc.Base64.stringify(CryptoJS.HmacSHA256(msg, key))\<close>; crypto-js
  takes both strings as UTF-8.\<close>

definition hmac_base64 :: "hmac_sha256 \<Rightarrow> string \<Rightarrow> string \<Rightarrow> string" where
  "hmac_base64 H msg key = base64_stringify (map unat (H (utf8_parse msg) (utf8_parse key)))"

definition hmacSign :: "hmac_sha256 \<Rightarrow> AccessToken \<Rightarrow> string \<Rightarrow> string" where
  "hmacSign H t msg = hmac_base64 H msg (appKey t)"

subsection \<open>Well-formed tokens\<close>

text \<open>The builder keeps the privilege map's keys distinct (a \<open>Map\<close> has no
  repeated keys) and among the enum's codes 0 to 4.\<close>

definition token_wf :: "AccessToken \<Rightarrow> bool" where
  "token_wf t \<longleftrightarrow> distinct (map fst (privileges t)) \<and> list_all (\<lambda>k. 0 \<le> k \<and> k \<le> 4) (map fst (privileges t))"

subsection \<open>Abstract specification\<close>

text \<open>What the builder and the packer promise (spec sections 4.1 and 4.3): a token is its
  signed fields and a finite map from privilege codes to expiries; a grant sets the
  expiry of the privilege and of the privileges it implies, read from an explicit
  rule table; the canonical packing lists the fields in a fixed order and the
  privileges by ascending code.\<close>

record token_spec =
  s_nonce :: int
  s_issuedAt :: int
  s_expireAt :: int
  s_roomId :: string
  s_userId :: string
  s_privileges :: "int \<rightharpoonup> int"

definition abs_token :: "AccessToken \<Rightarrow> token_spec" where
  "abs_token t = \<lparr>s_nonce = nonce t, s_issuedAt = issuedAt t, s_expireAt = expireAt t,
     s_roomId = roomId t, s_userId = userId t, s_privileges = map_of (privileges t)\<rparr>"

definition implied_privileges :: "Privileges \<Rightarrow> int list" where
  "implied_privileges p = (if p = PrivPublishStream then [0, 1, 2, 3] else [priv_code p])"

definition grant_spec :: "token_spec \<Rightarrow> Privileges \<Rightarrow> int \<Rightarrow> token_spec" where
  "grant_spec a p e = a\<lparr>s_privileges := fold (\<lambda>k m. m(k \<mapsto> e)) (implied_privileges p) (s_privileges a)\<rparr>"

definition privileges_spec :: "(int \<rightharpoonup> int) \<Rightarrow> (string \<times> json) list" where
  "privileges_spec m =
     concat (map (\<lambda>k. case m k of None \<Rightarrow> [] | Some v \<Rightarrow> [(js_int_string k, JNum v)]) [0..4])"

definition pack_spec :: "token_spec \<Rightarrow> string" where
  "pack_spec a = json_stringify (JObj
     [(''nonce'', JNum (s_nonce a)), (''issuedAt'', JNum (s_issuedAt a)),
      (''expireAt'', JNum (s_expireAt a)), (''roomID'', JStr (s_roomId a)),
      (''userID'', JStr (s_userId a)), (''privileges'', JObj (privileges_spec (s_privileges a)))])"

text \<open>A token as the constructor makes it, for the witnesses.\<close>

abbreviation fresh_token :: AccessToken where
  "fresh_token \<equiv> new_AccessToken ''68afed4e18ee8d017b08325f'' ''k'' ''123456'' ''123456'' 1700000000000 (1 / 2)"

subsection \<open>Builder and packer lemmas\<close>

lemma addPrivilege_map:
  "map_of (privileges (addPrivilege t p e)) =
     (if p = PrivPublishStream then (map_of (privileges t))(0 \<mapsto> e, 1 \<mapsto> e, 2 \<mapsto> e, 3 \<mapsto> e)
      else (map_of (privileges t))(priv_code p \<mapsto> e))"
  by (simp add: addPrivilege_def Let_def)

lemma addPrivilege_fields:
  "appId (addPrivilege t p e) = appId t \<and> appKey (addPrivilege t p e) = appKey t \<and>
   roomId (addPrivilege t p e) = roomId t \<and> userId (addPrivilege t p e) = userId t \<and>
   issuedAt (addPrivilege t p e) = issuedAt t \<and> nonce (addPrivilege t p e) = nonce t \<and>
   expireAt (addPrivilege t p e) = expireAt t \<and> signature (addPrivilege t p e) = signature t"
  by (simp add: addPrivilege_def Let_def)

lemma priv_code_range: "0 \<le> priv_code p \<and> priv_code p \<le> 4"
  by (cases p) simp_all

lemma assoc_set_range:
  "list_all (\<lambda>k. 0 \<le> k \<and> k \<le> (4::int)) (map fst ps) \<Longrightarrow> 0 \<le> k \<Longrightarrow> k \<le> 4 \<Longrightarrow>
     list_all (\<lambda>k. 0 \<le> k \<and> k \<le> 4) (map fst (assoc_set ps k v))"
  by (simp add: assoc_set_keys)

lemma expireTime_wf: "token_wf t \<Longrightarrow> token_wf (expireTime t e)"
  by (simp add: token_wf_def expireTime_def)

lemma new_AccessToken_wf: "token_wf (new_AccessToken a k r u now rnd)"
  by (simp add: token_wf_def new_AccessToken_def)

lemma dec_string_first_digit: "dec_string n = c # cs \<Longrightarrow> is_dec_digit c"
  using dec_string_digits [of c n] by simp

lemma js_int_string_inj [simp]: "js_int_string a = js_int_string b \<longleftrightarrow> a = b"
proof
  assume eq: "js_int_string a = js_int_string b"
  have minus: "\<not> is_dec_digit CHR ''-''" by (simp add: is_dec_digit_def)
  show "a = b"
  proof (cases "a < 0"; cases "b < 0")
    assume "a < 0" "b < 0"
    with eq show ?thesis by (simp add: js_int_string_def)
  next
    assume "\<not> a < 0" "\<not> b < 0"
    with eq show ?thesis by (simp add: js_int_string_def)
  next
    assume "a < 0" "\<not> b < 0"
    with eq minus show ?thesis
      by (cases "dec_string (nat b)") (auto simp: js_int_string_def dest: dec_string_first_digit)
  next
    assume "\<not> a < 0" "b < 0"
    with eq minus show ?thesis
      by (cases "dec_string (nat a)") (auto simp: js_int_string_def dest: dec_string_first_digit)
  qed
qed simp

lemma js_int_string_index:
  assumes "0 \<le> k" "k < 4294967295"
  shows "is_array_index (js_int_string k)" "digits_value (js_int_string k) = nat k"
proof -
  have s: "js_int_string k = dec_string (nat k)" using assms by (simp add: js_int_string_def)
  have z: "dec_string 0 = ''0''" by (simp add: dec_string.simps [of 0] digit_char_def char_of_eq_iff)
  have lead: "dec_string (nat k) = ''0'' \<or> hd (dec_string (nat k)) \<noteq> CHR ''0''"
    using dec_string_hd [of "nat k"] z by auto
  show "is_array_index (js_int_string k)"
    using assms lead dec_string_digits [of _ "nat k"] unfolding s is_array_index_def
    by (auto simp: list_all_iff)
  show "digits_value (js_int_string k) = nat k" by (simp add: s)
qed

lemma map_fst_privilege_entries: "map fst (privilege_entries ps) = map js_int_string (map fst ps)"
  by (induction ps) (auto simp: privilege_entries_def)

lemma privilege_entries_distinct:
  "distinct (map fst ps) \<Longrightarrow> distinct (map fst (privilege_entries ps))"
  by (simp add: map_fst_privilege_entries distinct_map inj_on_def)

lemma privileges_object_entries:
  "distinct (map fst ps) \<Longrightarrow> privileges_object ps = own_order (privilege_entries ps)"
  by (simp add: privileges_object_def js_object_def assoc_of_list_distinct privilege_entries_distinct)

lemma json_ok_msg_json: "json_ok (msg_json t)"
proof -
  have num: "list_all (\<lambda>(k, v). json_ok v) (privileges_object (privileges t))"
    using js_object_values [of "privilege_entries (privileges t)"]
    by (fastforce simp: privileges_object_def privilege_entries_def list_all_iff)
  have norm: "js_object (privileges_object ps) = privileges_object ps" for ps
    by (simp add: privileges_object_def js_object_idem)
  have lit: "js_object [(''nonce'', a), (''issuedAt'', b), (''expireAt'', c), (''roomID'', d),
      (''userID'', e), (''privileges'', f)] = [(''nonce'', a), (''issuedAt'', b), (''expireAt'', c),
      (''roomID'', d), (''userID'', e), (''privileges'', f)]" for a b c d e f :: json
    by (simp add: js_object_def assoc_of_list_def assoc_set_def own_order_def is_array_index_def
        is_dec_digit_def)
  show ?thesis using num norm lit by (simp add: msg_json_def)
qed

lemma privilege_entries_index:
  assumes d: "distinct (map fst ps)" and r: "list_all (\<lambda>k. 0 \<le> k \<and> k < 4294967295) (map fst ps)"
  shows "\<forall>p \<in> set (privilege_entries ps). is_array_index (fst p)"
    and "inj_on (\<lambda>p. digits_value (fst p)) (set (privilege_entries ps))"
proof -
  show "\<forall>p \<in> set (privilege_entries ps). is_array_index (fst p)"
    using r js_int_string_index(1) by (auto simp: privilege_entries_def list_all_iff)
  show "inj_on (\<lambda>p. digits_value (fst p)) (set (privilege_entries ps))"
  proof (rule inj_onI)
    fix p q assume p: "p \<in> set (privilege_entries ps)" and q: "q \<in> set (privilege_entries ps)"
      and eq: "digits_value (fst p) = digits_value (fst q)"
    from p obtain k v where pk: "p = (js_int_string k, JNum v)" "(k, v) \<in> set ps"
      by (auto simp: privilege_entries_def)
    from q obtain k' v' where qk: "q = (js_int_string k', JNum v')" "(k', v') \<in> set ps"
      by (auto simp: privilege_entries_def)
    have "0 \<le> k" "k < 4294967295" "0 \<le> k'" "k' < 4294967295"
      using r pk(2) qk(2) by (auto simp: list_all_iff)
    with eq pk qk have "k = k'" by (simp add: js_int_string_index(2))
    with pk(2) qk(2) d have "v = v'" by (metis eq_key_imp_eq_value)
    with \<open>k = k'\<close> pk qk show "p = q" by simp
  qed
qed

lemma privileges_spec_expand:
  "privileges_spec m =
     (case m 0 of None \<Rightarrow> [] | Some v \<Rightarrow> [(''0'', JNum v)]) @ (case m 1 of None \<Rightarrow> [] | Some v \<Rightarrow> [(''1'', JNum v)]) @
     (case m 2 of None \<Rightarrow> [] | Some v \<Rightarrow> [(''2'', JNum v)]) @ (case m 3 of None \<Rightarrow> [] | Some v \<Rightarrow> [(''3'', JNum v)]) @
     (case m 4 of None \<Rightarrow> [] | Some v \<Rightarrow> [(''4'', JNum v)])"
  by (simp add: privileges_spec_def upto.simps js_int_string_small cong: option.case_cong)

lemma own_order_privileges_spec: "own_order (privileges_spec m) = privileges_spec m"
proof -
  have idx: "filter (\<lambda>p. is_array_index (fst p)) (privileges_spec m) = privileges_spec m"
    "filter (\<lambda>p. \<not> is_array_index (fst p)) (privileges_spec m) = []"
    by (simp_all add: privileges_spec_expand split: option.split)
  have "sorted (map (\<lambda>p. digits_value (fst p)) (privileges_spec m))"
    by (simp add: privileges_spec_expand digit_val_def split: option.split)
  with idx show ?thesis by (simp add: own_order_def sort_key_id_if_sorted)
qed

lemma distinct_privileges_spec: "distinct (map fst (privileges_spec m))"
  by (simp add: privileges_spec_expand split: option.split)

lemma set_privileges_spec:
  "set (privileges_spec m) = {(js_int_string k, JNum v) | k v. k \<in> {0..4} \<and> m k = Some v}"
  by (auto simp: privileges_spec_def split: option.splits)

lemma privileges_object_spec:
  assumes d: "distinct (map fst ps)" and r: "list_all (\<lambda>k. 0 \<le> k \<and> k \<le> 4) (map fst ps)"
  shows "privileges_object ps = privileges_spec (map_of ps)"
proof -
  let ?E = "privilege_entries ps" and ?S = "privileges_spec (map_of ps)"
  have r': "list_all (\<lambda>k. 0 \<le> k \<and> k < 4294967295) (map fst ps)"
    using r by (auto simp: list_all_iff)
  have "set ?S = set ?E"
  proof -
    have "(k, v) \<in> set ps \<longleftrightarrow> k \<in> {0..4} \<and> map_of ps k = Some v" for k v
      using d r by (auto simp: list_all_iff)
    then show ?thesis by (auto simp: set_privileges_spec privilege_entries_def)
  qed
  moreover have "distinct ?E"
    using privilege_entries_distinct [OF d] distinct_map by blast
  moreover have "distinct ?S"
    using distinct_privileges_spec distinct_map by blast
  ultimately have perm: "mset ?E = mset ?S" by (simp add: set_eq_iff_mset_eq_distinct)
  have "own_order ?E = own_order ?S"
    using own_order_index_perm [OF privilege_entries_index(1) [OF d r'] perm privilege_entries_index(2) [OF d r']] .
  then show ?thesis using d by (simp add: privileges_object_entries own_order_privileges_spec)
qed

subsection \<open>Properties of the builder and the packer\<close>

text \<open>C7: Privilege cascade: granting the aggregate publish-stream privilege with expiry E
  makes the privileges 0 to 3 (publish stream, audio, video and data) each read back E.\<close>

theorem addPrivilege_cascade:
  "k \<in> {0, 1, 2, 3} \<Longrightarrow> map_of (privileges (addPrivilege t PrivPublishStream e)) k = Some e"
  by (auto simp: addPrivilege_map)

theorem addPrivilege_cascade_witness:
  "(2::int) \<in> {0, 1, 2, 3} \<and> map_of (privileges (addPrivilege fresh_token PrivPublishStream 9)) 2 = Some 9"
  using addPrivilege_cascade [of 2 fresh_token 9] by simp

text \<open>C10: Canonical packing: two tokens with the same signed fields and the same
  privilege map, built in any insertion order, pack to the same text.\<close>

theorem packMsg_canonical:
  assumes "nonce t1 = nonce t2" "issuedAt t1 = issuedAt t2" "expireAt t1 = expireAt t2"
    "roomId t1 = roomId t2" "userId t1 = userId t2"
    and wf: "token_wf t1" "token_wf t2"
    and same: "map_of (privileges t1) = map_of (privileges t2)"
  shows "packMsg t1 = packMsg t2"
proof -
  have "privileges_object (privileges t1) = privileges_object (privileges t2)"
    using wf same by (simp add: token_wf_def privileges_object_spec)
  with assms(1-5) show ?thesis by (simp add: packMsg_def msg_json_def)
qed

theorem packMsg_canonical_witness:
  "nonce (fresh_token\<lparr>privileges := [(4, 1), (0, 2)]\<rparr>) = nonce (fresh_token\<lparr>privileges := [(0, 2), (4, 1)]\<rparr>) \<and>
   issuedAt (fresh_token\<lparr>privileges := [(4, 1), (0, 2)]\<rparr>) = issuedAt (fresh_token\<lparr>privileges := [(0, 2), (4, 1)]\<rparr>) \<and>
   expireAt (fresh_token\<lparr>privileges := [(4, 1), (0, 2)]\<rparr>) = expireAt (fresh_token\<lparr>privileges := [(0, 2), (4, 1)]\<rparr>) \<and>
   roomId (fresh_token\<lparr>privileges := [(4, 1), (0, 2)]\<rparr>) = roomId (fresh_token\<lparr>privileges := [(0, 2), (4, 1)]\<rparr>) \<and>
   userId (fresh_token\<lparr>privileges := [(4, 1), (0, 2)]\<rparr>) = userId (fresh_token\<lparr>privileges := [(0, 2), (4, 1)]\<rparr>) \<and>
   token_wf (fresh_token\<lparr>privileges := [(4, 1), (0, 2)]\<rparr>) \<and> token_wf (fresh_token\<lparr>privileges := [(0, 2), (4, 1)]\<rparr>) \<and>
   map_of (privileges (fresh_token\<lparr>privileges := [(4, 1), (0, 2)]\<rparr>)) =
     map_of (privileges (fresh_token\<lparr>privileges := [(0, 2), (4, 1)]\<rparr>)) \<and>
   packMsg (fresh_token\<lparr>privileges := [(4, 1), (0, 2)]\<rparr>) = packMsg (fresh_token\<lparr>privileges := [(0, 2), (4, 1)]\<rparr>)"
proof -
  have m: "map_of (privileges (fresh_token\<lparr>privileges := [(4, 1), (0, 2)]\<rparr>)) =
     map_of (privileges (fresh_token\<lparr>privileges := [(0, 2), (4, 1)]\<rparr>))" by (simp add: fun_eq_iff)
  have w: "token_wf (fresh_token\<lparr>privileges := [(4, 1), (0, 2)]\<rparr>)" "token_wf (fresh_token\<lparr>privileges := [(0, 2), (4, 1)]\<rparr>)"
    by (simp_all add: token_wf_def)
  show ?thesis using packMsg_canonical [OF _ _ _ _ _ w m] m w by simp
qed

text \<open>C11: The packed text determines every signed field: tokens whose packed texts are
  equal agree on nonce, issuedAt, expireAt, roomId, userId and the packed privileges.\<close>

theorem packMsg_determines_fields:
  "packMsg t1 = packMsg t2 \<Longrightarrow>
     nonce t1 = nonce t2 \<and> issuedAt t1 = issuedAt t2 \<and> expireAt t1 = expireAt t2 \<and>
     roomId t1 = roomId t2 \<and> userId t1 = userId t2 \<and>
     privileges_object (privileges t1) = privileges_object (privileges t2)"
proof -
  assume "packMsg t1 = packMsg t2"
  then have "JSON_parse (json_stringify (msg_json t1)) = JSON_parse (json_stringify (msg_json t2))"
    by (simp add: packMsg_def)
  then have "msg_json t1 = msg_json t2" by (simp add: JSON_parse_stringify json_ok_msg_json)
  then show ?thesis by (simp add: msg_json_def)
qed

theorem packMsg_determines_fields_witness:
  "packMsg fresh_token = packMsg (fresh_token\<lparr>appKey := ''other''\<rparr>) \<and>
   nonce fresh_token = nonce (fresh_token\<lparr>appKey := ''other''\<rparr>) \<and>
   issuedAt fresh_token = issuedAt (fresh_token\<lparr>appKey := ''other''\<rparr>) \<and>
   expireAt fresh_token = expireAt (fresh_token\<lparr>appKey := ''other''\<rparr>) \<and>
   roomId fresh_token = roomId (fresh_token\<lparr>appKey := ''other''\<rparr>) \<and>
   userId fresh_token = userId (fresh_token\<lparr>appKey := ''other''\<rparr>) \<and>
   privileges_object (privileges fresh_token) = privileges_object (privileges (fresh_token\<lparr>appKey := ''other''\<rparr>))"
proof -
  have h: "packMsg fresh_token = packMsg (fresh_token\<lparr>appKey := ''other''\<rparr>)"
    by (simp add: packMsg_def msg_json_def)
  show ?thesis using packMsg_determines_fields [OF h] h by blast
qed

text \<open>C12: Fields outside the signed set (appId, appKey, signature) never affect the
  packed text, hence never the signature.\<close>

theorem packMsg_ignores_unsigned:
  "packMsg (t\<lparr>appId := a, appKey := k, signature := s\<rparr>) = packMsg t"
  by (simp add: packMsg_def msg_json_def)

text \<open>C18: Nonce bounds: for a value of Math.random() in [0, 1) the constructor's nonce
  is a non-negative integer below 10^9.\<close>

theorem nonce_bounds:
  "0 \<le> rnd \<Longrightarrow> rnd < 1 \<Longrightarrow> 0 \<le> nonce (new_AccessToken a k r u now rnd) \<and> nonce (new_AccessToken a k r u now rnd) < 1000000000"
proof -
  assume "0 \<le> rnd" "rnd < 1"
  then have "0 \<le> rnd * 1000000000" "rnd * 1000000000 < 1000000000" by simp_all
  then show ?thesis by (simp add: new_AccessToken_def floor_less_iff)
qed

theorem nonce_bounds_witness:
  "0 \<le> (1 / 2 :: real) \<and> (1 / 2 :: real) < 1 \<and>
   0 \<le> nonce fresh_token \<and> nonce fresh_token < 1000000000"
  using nonce_bounds [of "1 / 2" "''68afed4e18ee8d017b08325f''" "''k''" "''123456''" "''123456''" 1700000000000]
  by simp

text \<open>C20: Refinement of the builder: addPrivilege implements the abstract grant, which
  sets the expiry of every privilege in the rule table's entry for the granted one.\<close>

theorem addPrivilege_refines: "abs_token (addPrivilege t p e) = grant_spec (abs_token t) p e"
  using addPrivilege_fields [of t p e]
  by (simp add: abs_token_def grant_spec_def implied_privileges_def addPrivilege_map)

text \<open>C21: Refinement of the packer: on a well-formed token packMsg is the abstract
  canonical packing of the token's abstraction, with the privileges listed by
  ascending code whatever the map's insertion order.\<close>

theorem packMsg_refines: "token_wf t \<Longrightarrow> packMsg t = pack_spec (abs_token t)"
  by (simp add: token_wf_def packMsg_def msg_json_def pack_spec_def abs_token_def privileges_object_spec)

theorem packMsg_refines_witness:
  "token_wf (fresh_token\<lparr>privileges := [(4, 1), (0, 2)]\<rparr>) \<and>
   packMsg (fresh_token\<lparr>privileges := [(4, 1), (0, 2)]\<rparr>) =
     pack_spec (abs_token (fresh_token\<lparr>privileges := [(4, 1), (0, 2)]\<rparr>))"
proof -
  have h: "token_wf (fresh_token\<lparr>privileges := [(4, 1), (0, 2)]\<rparr>)" by (simp add: token_wf_def)
  show ?thesis using packMsg_refines [OF h] h by blast
qed

end
