(* ===== verification/Codec.thy ===== *)
theory Codec
  imports Token "HOL-Library.Code_Target_Numeral"
begin

text \<open>
  The wire codec of \<open>src/rtc/RTCTokenHelper.ts\<close>: \<open>serialize\<close>, \<open>parse\<close>,
  \<open>verify\<close> and the usage example \<open>tokenWithAppID\<close>.  \<open>parse\<close> returns an
  \<open>error + AccessToken\<close>: \<open>InvalidVersion\<close> is the \<open>Error('Invalid version')\<close>
  it throws, \<open>InvalidFormat\<close> stands for every exception the decoding steps raise
  (crypto-js's \<open>Malformed UTF-8 data\<close>, \<open>JSON.parse\<close>'s \<open>SyntaxError\<close>,
  \<open>Object.entries\<close>'s \<open>TypeError\<close>).  The fields of the decoded message are read
  with the JSON types \<open>serialize\<close> writes; a message whose fields have other
  types is outside the model and rejected with \<open>InvalidFormat\<close> (JavaScript would
  store the foreign value in the token).
\<close>

datatype error = InvalidVersion | InvalidFormat

subsection \<open>serialize\<close>

definition envelope_json :: "string \<Rightarrow> string \<Rightarrow> json" where
  "envelope_json msg sig = JObj [(''msg'', JStr msg), (''signature'', JStr sig)]"

text \<open>\<open>serialize()\<close>: the token with its \<open>signature\<close> field set, and the string.\<close>

text \<open>The envelope text that \<open>serialize\<close> encodes, with the signature it computes.\<close>

abbreviation signed_envelope :: "hmac_sha256 \<Rightarrow> AccessToken \<Rightarrow> string" where
  "signed_envelope H t \<equiv> json_stringify (envelope_json (packMsg t) (hmacSign H t (packMsg t)))"

text \<open>The first 18 characters of every envelope text: \<open>{"msg":"{\"nonce\"\<close>.\<close>

abbreviation envelope_head :: string where
  "envelope_head \<equiv> [CHR ''{'', CHR 0x22, CHR ''m'', CHR ''s'', CHR ''g'', CHR 0x22, CHR '':'', CHR 0x22,
     CHR ''{'', CHR 0x5C, CHR 0x22, CHR ''n'', CHR ''o'', CHR ''n'', CHR ''c'', CHR ''e'', CHR 0x5C, CHR 0x22]"

definition serialize :: "hmac_sha256 \<Rightarrow> AccessToken \<Rightarrow> AccessToken \<times> string" where
  "serialize H t =
     (let msg = packMsg t;
          t' = t\<lparr>signature := hmacSign H t msg\<rparr>;
          content = base64_stringify (utf8_parse (json_stringify (envelope_json msg (signature t'))))
      in (t', Version @ appId t' @ content))"

subsection \<open>parse\<close>

text \<open>\<open>Number(k)\<close> for a property key: white space trimmed, the empty string is 0,
  a signed decimal integer is its value; a key that is not an integer literal
  (\<open>NaN\<close>, a fraction, hexadecimal) is outside the integer model.\<close>

definition js_space :: "char \<Rightarrow> bool" where
  "js_space c \<longleftrightarrow> (of_char c :: nat) \<in> {9, 10, 11, 12, 13, 32, 160}"

definition decimal_digits :: "string \<Rightarrow> nat option" where
  "decimal_digits ds = (if ds \<noteq> [] \<and> list_all is_dec_digit ds then Some (digits_value ds) else None)"

definition string_to_number :: "string \<Rightarrow> int option" where
  "string_to_number s =
     (let u = rev (dropWhile js_space (rev (dropWhile js_space s)))
      in case u of
        [] \<Rightarrow> Some 0
      | c # ds \<Rightarrow>
          if c = CHR ''-'' then map_option (\<lambda>n. - int n) (decimal_digits ds)
          else if c = CHR ''+'' then map_option int (decimal_digits ds)
          else map_option int (decimal_digits u))"

definition json_get :: "string \<Rightarrow> json \<Rightarrow> json option" where
  "json_get k v = (case v of JObj ps \<Rightarrow> map_of ps k | _ \<Rightarrow> None)"

definition json_int :: "json option \<Rightarrow> int option" where
  "json_int v = (case v of Some (JNum i) \<Rightarrow> Some i | _ \<Rightarrow> None)"

definition json_string :: "json option \<Rightarrow> string option" where
  "json_string v = (case v of Some (JStr s) \<Rightarrow> Some s | _ \<Rightarrow> None)"

text \<open>\<open>Object.entries(msg.privileges).map(([k, v]) => [Number(k), v])\<close>.\<close>

fun privilege_pairs :: "(string \<times> json) list \<Rightarrow> (int \<times> int) list option" where
  "privilege_pairs [] = Some []"
| "privilege_pairs ((k, v) # rest) =
     (case (string_to_number k, v) of
       (Some n, JNum i) \<Rightarrow> map_option (Cons (n, i)) (privilege_pairs rest)
     | _ \<Rightarrow> None)"

text \<open>\<open>new Map(...)\<close> of those pairs.\<close>

definition privileges_of_json :: "json option \<Rightarrow> (int \<times> int) list option" where
  "privileges_of_json v =
     (case v of Some (JObj ps) \<Rightarrow> map_option assoc_of_list (privilege_pairs ps) | _ \<Rightarrow> None)"

definition parse :: "string \<Rightarrow> error + AccessToken" where
  "parse raw =
     (if take VERSION_LENGTH raw \<noteq> VERSION then Inl InvalidVersion
      else
        let appId' = take APP_ID_LENGTH (drop VERSION_LENGTH raw);
            contentEncoded = drop (VERSION_LENGTH + APP_ID_LENGTH) raw
        in case utf8_stringify (base64_parse contentEncoded) of
          None \<Rightarrow> Inl InvalidFormat
        | Some decoded \<Rightarrow>
            (case JSON_parse decoded of
              None \<Rightarrow> Inl InvalidFormat
            | Some obj \<Rightarrow>
                (case json_string (json_get ''msg'' obj) of
                  None \<Rightarrow> Inl InvalidFormat
                | Some m \<Rightarrow>
                    (case JSON_parse m of
                      None \<Rightarrow> Inl InvalidFormat
                    | Some msg \<Rightarrow>
                        (case (json_string (json_get ''roomID'' msg), json_string (json_get ''userID'' msg),
                               json_int (json_get ''nonce'' msg), json_int (json_get ''issuedAt'' msg),
                               json_int (json_get ''expireAt'' msg),
                               privileges_of_json (json_get ''privileges'' msg),
                               json_string (json_get ''signature'' obj)) of
                          (Some r, Some u, Some n, Some i, Some e, Some ps, Some sig) \<Rightarrow>
                            Inr \<lparr>appId = appId', appKey = [], roomId = r, userId = u, issuedAt = i,
                                 nonce = n, expireAt = e, privileges = ps, signature = sig\<rparr>
                        | _ \<Rightarrow> Inl InvalidFormat)))))"

subsection \<open>verify\<close>

text \<open>\<open>verify(appKey)\<close> at the clock reading \<open>now_ms\<close>.\<close>

definition verify :: "hmac_sha256 \<Rightarrow> AccessToken \<Rightarrow> string \<Rightarrow> int \<Rightarrow> bool" where
  "verify H t key now_ms =
     (if 0 < expireAt t \<and> expireAt t < now_ms div 1000 then False
      else hmac_base64 H (packMsg t) key = signature t)"

subsection \<open>tokenWithAppID\<close>

text \<open>The usage example: it builds, serializes and parses back a token (the parse
  may throw); the logging and the final \<open>verify\<close>, whose result is only logged, have
  no effect.  \<open>t0_ms\<close> and \<open>t1_ms\<close> are the two clock readings (constructor and
  \<open>now\<close>), \<open>rnd\<close> the constructor's random value.\<close>

definition issue_example :: "string \<Rightarrow> string \<Rightarrow> string \<Rightarrow> string \<Rightarrow> int \<Rightarrow> real \<Rightarrow> int \<Rightarrow> AccessToken" where
  "issue_example appId' appKey' roomId' userId' t0_ms rnd t1_ms =
     (let token = new_AccessToken appId' appKey' roomId' userId' t0_ms rnd;
          now = t1_ms div 1000;
          token = addPrivilege token PrivSubscribeStream now;
          token = addPrivilege token PrivPublishStream (now + 3600)
      in expireTime token (now + 3600 * 2))"

definition tokenWithAppID ::
  "hmac_sha256 \<Rightarrow> string \<Rightarrow> string \<Rightarrow> string \<Rightarrow> string \<Rightarrow> int \<Rightarrow> real \<Rightarrow> int \<Rightarrow> error + string" where
  "tokenWithAppID H appId' appKey' roomId' userId' t0_ms rnd t1_ms =
     (let s = snd (serialize H (issue_example appId' appKey' roomId' userId' t0_ms rnd t1_ms))
      in case parse s of Inl e \<Rightarrow> Inl e | Inr _ \<Rightarrow> Inr s)"

text \<open>Sample inputs for the witnesses of the properties: a token with an appId of
  the fixed width, an HMAC stand-in that ignores its inputs, and one that returns the
  key's bytes (so that different keys give different digests).\<close>

abbreviation sample_token :: AccessToken where
  "sample_token \<equiv> \<lparr>appId = ''68afed4e18ee8d017b08325f'', appKey = ''k'', roomId = ''ab'', userId = ''u'', issuedAt = 1, nonce = 7, expireAt = 0, privileges = [(4, 5)], signature = []\<rparr>"

abbreviation sample_hmac :: hmac_sha256 where
  "sample_hmac \<equiv> \<lambda>m k. replicate 32 0"

abbreviation key_hmac :: hmac_sha256 where
  "key_hmac \<equiv> \<lambda>m k. map of_nat k"

abbreviation signed_sample :: AccessToken where
  "signed_sample \<equiv> sample_token\<lparr>signature := hmac_base64 key_hmac (packMsg sample_token) ''a''\<rparr>"

text \<open>A token carrying the privilege code 7, which is not in the enumeration.\<close>

abbreviation forged_token :: AccessToken where
  "forged_token \<equiv> sample_token\<lparr>privileges := [(7, 1)]\<rparr>"

subsection \<open>Codec lemmas\<close>

lemma js_space_digit: "is_dec_digit c \<Longrightarrow> \<not> js_space c"
  by (auto simp: is_dec_digit_def js_space_def)

lemma js_space_js_int_string: "c \<in> set (js_int_string k) \<Longrightarrow> \<not> js_space c"
  using dec_string_digits [of c] js_space_digit [of c]
  by (auto simp: js_int_string_def js_space_def split: if_splits)

lemma string_to_number_int [simp]: "string_to_number (js_int_string k) = Some k"
proof -
  have ne: "js_int_string k \<noteq> []" by (simp add: js_int_string_def)
  have nsp: "dropWhile js_space (js_int_string k) = js_int_string k"
    "dropWhile js_space (rev (js_int_string k)) = rev (js_int_string k)"
    using js_space_js_int_string [OF hd_in_set [OF ne]] js_space_js_int_string [OF last_in_set [OF ne]]
    by (simp_all add: dropWhile_eq_self_iff hd_rev)
  have dd: "decimal_digits (dec_string n) = Some n" for n
    using dec_string_digits [of _ n] by (simp add: decimal_digits_def list_all_iff)
  show ?thesis
  proof (cases "k < 0")
    case True
    then show ?thesis using nsp dd by (simp add: string_to_number_def js_int_string_def)
  next
    case False
    obtain c cs where dc: "dec_string (nat k) = c # cs" by (cases "dec_string (nat k)") auto
    then have "is_dec_digit c" using dec_string_digits [of c "nat k"] by simp
    then have "c \<noteq> CHR ''-''" "c \<noteq> CHR ''+''" by (auto simp: is_dec_digit_def)
    with False nsp dd [of "nat k"] dc show ?thesis
      by (simp add: string_to_number_def js_int_string_def)
  qed
qed


lemma privilege_pairs_entries: "privilege_pairs (privilege_entries P) = Some P"
  by (induction P) (auto simp: privilege_entries_def)

lemma inj_privilege_entry: "inj (\<lambda>(k :: int, v :: int). (js_int_string k, JNum v))"
  by (auto simp: inj_def)

lemma privileges_of_json_object:
  "\<exists>P. privileges_of_json (Some (JObj (privileges_object ps))) = Some P \<and>
       privileges_object P = privileges_object ps \<and> distinct (map fst P) \<and>
       (distinct (map fst ps) \<longrightarrow> map_of P = map_of ps)"
proof -
  let ?g = "\<lambda>(k :: int, v :: int). (js_int_string k, JNum v)"
  let ?L = "privileges_object ps"
  have "\<forall>x \<in> set ?L. \<exists>y. x = ?g y"
    using set_js_object [of "privilege_entries ps"]
    by (auto simp: privileges_object_def privilege_entries_def)
  then have "\<exists>P. ?L = map ?g P" by (simp only: ex_map_conv)
  then obtain P where L: "?L = privilege_entries P"
    by (auto simp: privilege_entries_def)
  have "distinct (map js_int_string (map fst P))"
    using js_object_keys_distinct [of "privilege_entries ps"] L
    by (simp add: privileges_object_def map_fst_privilege_entries)
  then have dP: "distinct (map fst P)" using distinct_map [of js_int_string "map fst P"] by blast
  have conv: "privileges_of_json (Some (JObj ?L)) = Some P"
    using L dP by (simp add: privileges_of_json_def privilege_pairs_entries assoc_of_list_distinct)
  have same: "privileges_object P = ?L"
    using L js_object_idem [of "privilege_entries ps"] by (simp add: privileges_object_def)
  have "map_of P = map_of ps" if dps: "distinct (map fst ps)"
  proof -
    have "set (privilege_entries P) = set (privilege_entries ps)"
      using L mset_js_object_distinct [OF privilege_entries_distinct [OF dps]]
      by (simp add: privileges_object_def) (metis set_mset_mset)
    then have "?g ` set P = ?g ` set ps" by (simp add: privilege_entries_def)
    then have "set P = set ps" using inj_privilege_entry by (simp add: inj_image_eq_iff)
    then show ?thesis using map_of_inject_set [OF dP dps] by simp
  qed
  with conv same dP show ?thesis by blast
qed


lemma json_ok_envelope: "json_ok (envelope_json m s)"
  by (simp add: envelope_json_def js_object_def assoc_of_list_def assoc_set_def own_order_def
      is_array_index_def is_dec_digit_def)

lemma serialize_eq:
  "serialize H t = (t\<lparr>signature := hmacSign H t (packMsg t)\<rparr>,
     VERSION @ appId t @ base64_stringify (utf8_parse (signed_envelope H t)))"
  by (simp add: serialize_def Let_def Version_def)

lemma parse_prefix:
  assumes "length a = APP_ID_LENGTH"
  shows "parse (VERSION @ a @ c) =
    (case utf8_stringify (base64_parse c) of
          None \<Rightarrow> Inl InvalidFormat
        | Some decoded \<Rightarrow>
            (case JSON_parse decoded of
              None \<Rightarrow> Inl InvalidFormat
            | Some obj \<Rightarrow>
                (case json_string (json_get ''msg'' obj) of
                  None \<Rightarrow> Inl InvalidFormat
                | Some m \<Rightarrow>
                    (case JSON_parse m of
                      None \<Rightarrow> Inl InvalidFormat
                    | Some msg \<Rightarrow>
                        (case (json_string (json_get ''roomID'' msg), json_string (json_get ''userID'' msg),
                               json_int (json_get ''nonce'' msg), json_int (json_get ''issuedAt'' msg),
                               json_int (json_get ''expireAt'' msg),
                               privileges_of_json (json_get ''privileges'' msg),
                               json_string (json_get ''signature'' obj)) of
                          (Some r, Some u, Some n, Some i, Some e, Some ps, Some sig) \<Rightarrow>
                            Inr \<lparr>appId = a, appKey = [], roomId = r, userId = u, issuedAt = i,
                                 nonce = n, expireAt = e, privileges = ps, signature = sig\<rparr>
                        | _ \<Rightarrow> Inl InvalidFormat)))))"
  using assms by (simp add: parse_def VERSION_LENGTH_def VERSION_def APP_ID_LENGTH_def)

lemma parse_serialize:
  assumes len: "length (appId t) = APP_ID_LENGTH"
  shows "\<exists>P. parse (snd (serialize H t)) =
      Inr (t\<lparr>appKey := [], privileges := P, signature := hmacSign H t (packMsg t)\<rparr>) \<and>
    privileges_object P = privileges_object (privileges t) \<and> distinct (map fst P) \<and>
    (distinct (map fst (privileges t)) \<longrightarrow> map_of P = map_of (privileges t))"
proof -
  obtain P where P: "privileges_of_json (Some (JObj (privileges_object (privileges t)))) = Some P"
    "privileges_object P = privileges_object (privileges t)" "distinct (map fst P)"
    "distinct (map fst (privileges t)) \<longrightarrow> map_of P = map_of (privileges t)"
    using privileges_of_json_object by blast
  have env: "JSON_parse (signed_envelope H t) = Some (envelope_json (packMsg t) (hmacSign H t (packMsg t)))"
    by (simp add: JSON_parse_stringify json_ok_envelope)
  have msg: "JSON_parse (packMsg t) = Some (msg_json t)"
    by (simp add: packMsg_def JSON_parse_stringify json_ok_msg_json)
  have "parse (snd (serialize H t)) =
      Inr (t\<lparr>appKey := [], privileges := P, signature := hmacSign H t (packMsg t)\<rparr>)"
  proof -
    have dec: "utf8_stringify (base64_parse (base64_stringify (utf8_parse (signed_envelope H t)))) =
        Some (signed_envelope H t)"
      by (simp only: base64_parse_stringify bytes_ok_utf8_parse utf8_stringify_parse)
    show ?thesis
      unfolding serialize_eq snd_conv parse_prefix [OF len] dec option.case env msg
      using P(1) by (simp add: msg json_get_def envelope_json_def msg_json_def json_string_def json_int_def)
  qed
  with P(2-4) show ?thesis by blast
qed

lemma packMsg_cong:
  "nonce t' = nonce t \<Longrightarrow> issuedAt t' = issuedAt t \<Longrightarrow> expireAt t' = expireAt t \<Longrightarrow>
   roomId t' = roomId t \<Longrightarrow> userId t' = userId t \<Longrightarrow>
   privileges_object (privileges t') = privileges_object (privileges t) \<Longrightarrow> packMsg t' = packMsg t"
  unfolding packMsg_def msg_json_def by (simp only:)

lemma parse_serialize_signed:
  assumes "length (appId t) = APP_ID_LENGTH"
  shows "\<exists>t'. parse (snd (serialize H t)) = Inr t' \<and> packMsg t' = packMsg t \<and>
    signature t' = hmacSign H t (packMsg t) \<and> expireAt t' = expireAt t"
proof -
  from parse_serialize [OF assms, of H] obtain P where
    "parse (snd (serialize H t)) = Inr (t\<lparr>appKey := [], privileges := P, signature := hmacSign H t (packMsg t)\<rparr>)"
    "privileges_object P = privileges_object (privileges t)" by blast
  moreover have "packMsg (t\<lparr>appKey := [], privileges := P, signature := hmacSign H t (packMsg t)\<rparr>) = packMsg t"
    by (rule packMsg_cong) (simp_all add: \<open>privileges_object P = privileges_object (privileges t)\<close>)
  ultimately show ?thesis by auto
qed

lemma signed_envelope_head: "\<exists>rest. signed_envelope H t = envelope_head @ CHR '':'' # rest"
  by (simp add: envelope_json_def packMsg_def msg_json_def json_quote_def quote_char_def)

lemma JSON_parse_colon: "JSON_parse (CHR '':'' # r) = None"
  by (simp add: JSON_parse_def jp_value_Suc jp_scalar_def jp_number_def jp_int_part_def is_ws_def
      is_dec_digit_def)

lemma parse_serialize_no_appId:
  assumes "appId t = []"
  shows "parse (snd (serialize H t)) = Inl InvalidFormat"
proof -
  obtain rest where e: "signed_envelope H t = envelope_head @ CHR '':'' # rest"
    using signed_envelope_head by blast
  let ?h = "map of_char envelope_head :: nat list"
  let ?c = "base64_stringify (utf8_parse (CHR '':'' # rest))"
  have u: "utf8_parse (signed_envelope H t) = ?h @ utf8_parse (CHR '':'' # rest)"
    unfolding e by (simp add: utf8_char_def)
  have raw: "snd (serialize H t) = VERSION @ base64_stringify ?h @ ?c"
    using assms by (simp add: serialize_eq u base64_stringify_append)
  have len: "length (base64_stringify ?h) = APP_ID_LENGTH"
    by (simp add: length_base64_stringify APP_ID_LENGTH_def)
  have dec: "utf8_stringify (base64_parse ?c) = Some (CHR '':'' # rest)"
    by (simp only: base64_parse_stringify bytes_ok_utf8_parse utf8_stringify_parse)
  show ?thesis
    unfolding raw parse_prefix [OF len] dec by (simp add: JSON_parse_colon)
qed

lemma base64_stringify_pad1:
  "length bs mod 3 = 1 \<Longrightarrow> \<exists>u. base64_stringify bs = u @ [CHR ''='', CHR ''='']"
proof (induction bs rule: base64_stringify.induct)
  case (4 a b c rest)
  then obtain u where "base64_stringify rest = u @ [CHR ''='', CHR ''='']" by auto
  then show ?case by simp
qed simp_all

lemma bytes_ok_unat: "bytes_ok (map unat (ws :: 8 word list))"
proof -
  have "unat (w :: 8 word) < 256" for w using unsigned_less [of w] by simp
  then show ?thesis by (simp add: bytes_ok_def list_all_iff)
qed

lemma hmac_base64_inj:
  "hmac_base64 H m k = hmac_base64 H m k' \<Longrightarrow> H (utf8_parse m) (utf8_parse k) = H (utf8_parse m) (utf8_parse k')"
  unfolding hmac_base64_def
proof -
  assume "base64_stringify (map unat (H (utf8_parse m) (utf8_parse k))) =
    base64_stringify (map unat (H (utf8_parse m) (utf8_parse k')))"
  then have "map unat (H (utf8_parse m) (utf8_parse k)) = map unat (H (utf8_parse m) (utf8_parse k'))"
    by (metis base64_parse_stringify bytes_ok_unat)
  moreover have "inj (unat :: 8 word \<Rightarrow> nat)" by (simp add: inj_def word_unat_eq_iff)
  ultimately show ?thesis by (simp add: inj_map_eq_map)
qed

lemma issue_example_fields:
  "appId (issue_example a k r u t0_ms rnd t1_ms) = a \<and> appKey (issue_example a k r u t0_ms rnd t1_ms) = k \<and>
   roomId (issue_example a k r u t0_ms rnd t1_ms) = r \<and> userId (issue_example a k r u t0_ms rnd t1_ms) = u \<and>
   issuedAt (issue_example a k r u t0_ms rnd t1_ms) = t0_ms div 1000 \<and>
   nonce (issue_example a k r u t0_ms rnd t1_ms) = \<lfloor>rnd * 1000000000\<rfloor> \<and>
   expireAt (issue_example a k r u t0_ms rnd t1_ms) = t1_ms div 1000 + 7200 \<and>
   privileges (issue_example a k r u t0_ms rnd t1_ms) =
     [(4, t1_ms div 1000), (0, t1_ms div 1000 + 3600), (1, t1_ms div 1000 + 3600),
      (2, t1_ms div 1000 + 3600), (3, t1_ms div 1000 + 3600)]"
  by (simp add: issue_example_def new_AccessToken_def addPrivilege_def expireTime_def assoc_set_def Let_def)

text \<open>The usage example with an empty appId always raises: the envelope is then read
  24 characters too early, and its decoded text starts with a colon.\<close>

lemma tokenWithAppID_no_appId:
  "tokenWithAppID H [] appKey' roomId' userId' t0_ms rnd t1_ms = Inl InvalidFormat"
  using parse_serialize_no_appId [of "issue_example [] appKey' roomId' userId' t0_ms rnd t1_ms" H]
  by (simp add: tokenWithAppID_def issue_example_fields)

subsection \<open>Properties of the wire codec\<close>

text \<open>C1: Round trip: for a token whose appId has the fixed width of 24 characters and whose privilege map is well formed, parse(serialize(token)) succeeds and gives back appId, roomId, userId, nonce, issuedAt and expireAt unchanged, the same privilege map, an empty appKey, and the signature that serialize stored; the parsed token is again well formed.\<close>

theorem serialize_parse_roundtrip:
  assumes "length (appId t) = APP_ID_LENGTH" and "token_wf t"
  shows "\<exists>t'. parse (snd (serialize H t)) = Inr t' \<and>
    appId t' = appId t \<and> roomId t' = roomId t \<and> userId t' = userId t \<and> nonce t' = nonce t \<and>
    issuedAt t' = issuedAt t \<and> expireAt t' = expireAt t \<and>
    map_of (privileges t') = map_of (privileges t) \<and> appKey t' = [] \<and>
    signature t' = signature (fst (serialize H t)) \<and> token_wf t'"
proof -
  from parse_serialize [OF assms(1), of H] obtain P where
    p: "parse (snd (serialize H t)) = Inr (t\<lparr>appKey := [], privileges := P, signature := hmacSign H t (packMsg t)\<rparr>)"
    and d: "distinct (map fst P)" and m: "distinct (map fst (privileges t)) \<longrightarrow> map_of P = map_of (privileges t)"
    by blast
  have m': "map_of P = map_of (privileges t)" using m assms(2) by (simp add: token_wf_def)
  then have "set (map fst P) = set (map fst (privileges t))"
    by (metis dom_map_of_conv_image_fst set_map)
  then have "token_wf (t\<lparr>privileges := P\<rparr>)" using d assms(2) by (simp add: token_wf_def list_all_iff)
  with p m' show ?thesis by (simp add: serialize_def Let_def token_wf_def)
qed


theorem serialize_parse_roundtrip_witness:
  "length (appId sample_token) = APP_ID_LENGTH \<and> token_wf sample_token \<and>
   (\<exists>t'. parse (snd (serialize sample_hmac sample_token)) = Inr t' \<and>
    appId t' = appId sample_token \<and> roomId t' = roomId sample_token \<and> userId t' = userId sample_token \<and>
    nonce t' = nonce sample_token \<and> issuedAt t' = issuedAt sample_token \<and> expireAt t' = expireAt sample_token \<and>
    map_of (privileges t') = map_of (privileges sample_token) \<and> appKey t' = [] \<and>
    signature t' = signature (fst (serialize sample_hmac sample_token)) \<and> token_wf t')"
proof -
  have h1: "length (appId sample_token) = APP_ID_LENGTH" by (simp add: APP_ID_LENGTH_def)
  have h2: "token_wf sample_token" by (simp add: token_wf_def)
  show ?thesis using serialize_parse_roundtrip [OF h1 h2] h1 h2 by blast
qed


text \<open>C2: Verification validity: the token that parse recovers from serialize verifies with the key it was signed with exactly when it is not expired, at every clock reading.\<close>

theorem serialize_verify:
  assumes "length (appId t) = APP_ID_LENGTH"
  shows "\<exists>t'. parse (snd (serialize H t)) = Inr t' \<and>
    (\<forall>now_ms. verify H t' (appKey t) now_ms \<longleftrightarrow> \<not> (0 < expireAt t \<and> expireAt t < now_ms div 1000))"
proof -
  from parse_serialize [OF assms, of H] obtain P where
    p: "parse (snd (serialize H t)) = Inr (t\<lparr>appKey := [], privileges := P, signature := hmacSign H t (packMsg t)\<rparr>)"
    and o: "privileges_object P = privileges_object (privileges t)" by blast
  have "packMsg (t\<lparr>appKey := [], privileges := P, signature := hmacSign H t (packMsg t)\<rparr>) = packMsg t"
    by (rule packMsg_cong) (simp_all add: o)
  with p show ?thesis by (simp add: verify_def hmacSign_def)
qed


theorem serialize_verify_witness:
  "length (appId sample_token) = APP_ID_LENGTH \<and>
   (\<exists>t'. parse (snd (serialize sample_hmac sample_token)) = Inr t' \<and>
    (\<forall>now_ms. verify sample_hmac t' (appKey sample_token) now_ms \<longleftrightarrow>
       \<not> (0 < expireAt sample_token \<and> expireAt sample_token < now_ms div 1000)))"
proof -
  have h1: "length (appId sample_token) = APP_ID_LENGTH" by (simp add: APP_ID_LENGTH_def)
  show ?thesis using serialize_verify [OF h1] h1 by blast
qed

text \<open>C5: Expiry: a token with a positive expireAt that lies before the current second never verifies, whatever its signature and the key.\<close>

theorem verify_expired:
  "0 < expireAt t \<Longrightarrow> expireAt t < now_ms div 1000 \<Longrightarrow> \<not> verify H t key now_ms"
  by (simp add: verify_def)

theorem verify_expired_witness:
  "0 < expireAt (sample_token\<lparr>expireAt := 5\<rparr>) \<and> expireAt (sample_token\<lparr>expireAt := 5\<rparr>) < 10000 div 1000 \<and>
   \<not> verify sample_hmac (sample_token\<lparr>expireAt := 5\<rparr>) ''k'' 10000"
proof -
  have h1: "0 < expireAt (sample_token\<lparr>expireAt := 5\<rparr>)" by simp
  have h2: "expireAt (sample_token\<lparr>expireAt := 5\<rparr>) < 10000 div 1000" by simp
  show ?thesis using verify_expired [OF h1 h2, of sample_hmac "''k''"] h1 h2 by blast
qed

text \<open>C6: No-expiry sentinel: when expireAt is 0 the verdict of verify does not depend on the clock; only the signature decides it.\<close>

theorem verify_no_expiry:
  "expireAt t = 0 \<Longrightarrow> verify H t key now_ms = verify H t key now_ms'"
  by (simp add: verify_def)

theorem verify_no_expiry_witness:
  "expireAt sample_token = 0 \<and>
   verify sample_hmac sample_token ''k'' 0 = verify sample_hmac sample_token ''k'' 4102444800000"
proof -
  have h: "expireAt sample_token = 0" by simp
  show ?thesis using verify_no_expiry [OF h, of sample_hmac "''k''" 0 4102444800000] h by blast
qed

text \<open>C8: Tamper sensitivity fails at the padding: when the UTF-8 envelope has length 1 modulo 3 the serialized token ends in two padding characters, and replacing the last of them by any character gives a string that parses to a token which verifies exactly as the original does.\<close>

theorem serialize_tamper_padding:
  assumes len: "length (appId t) = APP_ID_LENGTH"
    and pad: "length (utf8_parse (signed_envelope H t)) mod 3 = 1"
  shows "\<exists>s. snd (serialize H t) = s @ ''=='' \<and>
    (\<forall>c. \<exists>t'. parse (s @ [CHR ''='', c]) = Inr t' \<and>
       (\<forall>now_ms. verify H t' (appKey t) now_ms \<longleftrightarrow> \<not> (0 < expireAt t \<and> expireAt t < now_ms div 1000)))"
proof -
  obtain u where u: "base64_stringify (utf8_parse (signed_envelope H t)) = u @ [CHR ''='', CHR ''='']"
    using base64_stringify_pad1 [OF pad] by blast
  obtain t' where p: "parse (snd (serialize H t)) = Inr t'" and m: "packMsg t' = packMsg t"
    and sg: "signature t' = hmacSign H t (packMsg t)" and e: "expireAt t' = expireAt t"
    using parse_serialize_signed [OF len] by blast
  have raw: "snd (serialize H t) = (VERSION @ appId t @ u) @ ''==''" by (simp add: serialize_eq u)
  have "parse ((VERSION @ appId t @ u) @ [CHR ''='', c]) = Inr t'" for c
  proof -
    have "base64_parse (u @ [CHR ''='', c]) = base64_parse (u @ [CHR ''='', CHR ''=''])"
      using base64_parse_after_pad [of u "[c]" "[CHR ''='']"] by simp
    then have "parse (VERSION @ appId t @ u @ [CHR ''='', c]) = parse (snd (serialize H t))"
      unfolding raw by (simp add: parse_prefix [OF len])
    with p show ?thesis by simp
  qed
  moreover have "verify H t' (appKey t) now_ms \<longleftrightarrow> \<not> (0 < expireAt t \<and> expireAt t < now_ms div 1000)" for now_ms
  proof -
    show ?thesis using m sg e by (simp add: verify_def hmacSign_def)
  qed
  ultimately show ?thesis using raw by blast
qed

theorem serialize_tamper_padding_witness:
  "length (appId sample_token) = APP_ID_LENGTH \<and>
   length (utf8_parse (signed_envelope sample_hmac sample_token)) mod 3 = 1 \<and>
   (\<exists>s. snd (serialize sample_hmac sample_token) = s @ ''=='' \<and>
    (\<forall>c. \<exists>t'. parse (s @ [CHR ''='', c]) = Inr t' \<and>
       (\<forall>now_ms. verify sample_hmac t' (appKey sample_token) now_ms \<longleftrightarrow>
          \<not> (0 < expireAt sample_token \<and> expireAt sample_token < now_ms div 1000))))"
proof -
  have h1: "length (appId sample_token) = APP_ID_LENGTH" by (simp add: APP_ID_LENGTH_def)
  have h2: "length (utf8_parse (signed_envelope sample_hmac sample_token)) mod 3 = 1" by code_simp
  show ?thesis using serialize_tamper_padding [OF h1 h2] h1 h2 by blast
qed

text \<open>C9: Other keys: a token signed with key K does not verify with a key K2 for which the HMAC function gives a different digest on the packed message.\<close>

theorem verify_other_key:
  assumes "H (utf8_parse (packMsg t)) (utf8_parse key') \<noteq> H (utf8_parse (packMsg t)) (utf8_parse key)"
    and "signature t = hmac_base64 H (packMsg t) key"
  shows "\<not> verify H t key' now_ms"
  using assms hmac_base64_inj [of H "packMsg t" key' key] by (auto simp: verify_def)

theorem verify_other_key_witness:
  "key_hmac (utf8_parse (packMsg signed_sample)) (utf8_parse ''b'') \<noteq>
     key_hmac (utf8_parse (packMsg signed_sample)) (utf8_parse ''a'') \<and>
   signature signed_sample = hmac_base64 key_hmac (packMsg signed_sample) ''a'' \<and>
   \<not> verify key_hmac signed_sample ''b'' 0"
proof -
  have h1: "key_hmac (utf8_parse (packMsg signed_sample)) (utf8_parse ''b'') \<noteq>
     key_hmac (utf8_parse (packMsg signed_sample)) (utf8_parse ''a'')" by code_simp
  have h2: "signature signed_sample = hmac_base64 key_hmac (packMsg signed_sample) ''a''"
    by (simp add: packMsg_def msg_json_def)
  show ?thesis using verify_other_key [OF h1 h2, of 0] h1 h2 by blast
qed

text \<open>C13: Version check: parse fails with InvalidVersion exactly when the first three characters are not the version tag 001; any other failure is InvalidFormat.\<close>

theorem parse_invalid_version:
  "parse raw = Inl InvalidVersion \<longleftrightarrow> take 3 raw \<noteq> ''001''"
  by (auto simp: parse_def VERSION_def VERSION_LENGTH_def Let_def numeral_3_eq_3 split: option.split prod.split)

theorem parse_invalid_version_witness: "parse ''002'' = Inl InvalidVersion"
  using parse_invalid_version [of "''002''"] by simp

text \<open>C15: The example scenario of the specification: a token issued by the usage example for an appId of 24 characters parses back and verifies with the issuing key until its expiry now + 7200 and never after it.\<close>

theorem example_scenario:
  assumes "length a = APP_ID_LENGTH" and "0 \<le> t1_ms"
  shows "\<exists>t'. parse (snd (serialize H (issue_example a k r u t0_ms rnd t1_ms))) = Inr t' \<and>
    (\<forall>now_ms. verify H t' k now_ms \<longleftrightarrow> now_ms div 1000 \<le> t1_ms div 1000 + 7200)"
proof -
  let ?t = "issue_example a k r u t0_ms rnd t1_ms"
  obtain t' where p: "parse (snd (serialize H ?t)) = Inr t'" and m: "packMsg t' = packMsg ?t"
    and sg: "signature t' = hmacSign H ?t (packMsg ?t)" and e: "expireAt t' = expireAt ?t"
    using parse_serialize_signed [of ?t H] assms(1) by (auto simp: issue_example_fields)
  have "0 < t1_ms div 1000 + 7200" using assms(2) by simp
  then have "verify H t' k now_ms \<longleftrightarrow> now_ms div 1000 \<le> t1_ms div 1000 + 7200" for now_ms
    using m sg e by (auto simp: verify_def hmacSign_def issue_example_fields)
  with p show ?thesis by blast
qed

theorem example_scenario_witness:
  "length ''68afed4e18ee8d017b08325f'' = APP_ID_LENGTH \<and> 0 \<le> (5000::int) \<and>
   (\<exists>t'. parse (snd (serialize sample_hmac (issue_example ''68afed4e18ee8d017b08325f'' ''k'' ''123456'' ''123456'' 1000 0.5 5000))) = Inr t' \<and>
     (\<forall>now_ms. verify sample_hmac t' ''k'' now_ms \<longleftrightarrow> now_ms div 1000 \<le> 5000 div 1000 + 7200))"
proof -
  have h1: "length ''68afed4e18ee8d017b08325f'' = APP_ID_LENGTH" by (simp add: APP_ID_LENGTH_def)
  have h2: "0 \<le> (5000::int)" by simp
  show ?thesis using example_scenario [OF h1 h2, of sample_hmac "''k''" "''123456''" "''123456''" 1000 "0.5"] h1 h2 by blast
qed

text \<open>C16: The usage example succeeds for an appId of 24 characters: it returns the serialized token instead of raising.\<close>

theorem tokenWithAppID_ok:
  "length appId' = APP_ID_LENGTH \<Longrightarrow>
   tokenWithAppID H appId' appKey' roomId' userId' t0_ms rnd t1_ms =
     Inr (snd (serialize H (issue_example appId' appKey' roomId' userId' t0_ms rnd t1_ms)))"
  using parse_serialize_signed [of "issue_example appId' appKey' roomId' userId' t0_ms rnd t1_ms" H]
  by (auto simp: tokenWithAppID_def issue_example_fields)

theorem tokenWithAppID_ok_witness:
  "length ''68afed4e18ee8d017b08325f'' = APP_ID_LENGTH \<and>
   tokenWithAppID sample_hmac ''68afed4e18ee8d017b08325f'' ''k'' ''123456'' ''123456'' 1000 0.5 5000 =
     Inr (snd (serialize sample_hmac (issue_example ''68afed4e18ee8d017b08325f'' ''k'' ''123456'' ''123456'' 1000 0.5 5000)))"
proof -
  have h: "length ''68afed4e18ee8d017b08325f'' = APP_ID_LENGTH" by (simp add: APP_ID_LENGTH_def)
  show ?thesis using tokenWithAppID_ok [OF h, of sample_hmac "''k''" "''123456''" "''123456''" 1000 "0.5" 5000] h by blast
qed

text \<open>C17: Wire layout: the serialized string is the version tag 001, the appId in the next 24 characters, and the padded base64 of the UTF-8 envelope, of length 4 * ceil(n / 3) for n envelope bytes; serialize changes no field of the token but the signature.\<close>

theorem serialize_layout:
  assumes "length (appId t) = APP_ID_LENGTH"
  shows "take 3 (snd (serialize H t)) = ''001'' \<and>
    take APP_ID_LENGTH (drop 3 (snd (serialize H t))) = appId t \<and>
    length (snd (serialize H t)) = 27 + 4 * ((length (utf8_parse (signed_envelope H t)) + 2) div 3) \<and>
    fst (serialize H t) = t\<lparr>signature := hmacSign H t (packMsg t)\<rparr>"
  using assms by (simp add: serialize_eq VERSION_def APP_ID_LENGTH_def length_base64_stringify)

theorem serialize_layout_witness:
  "length (appId sample_token) = APP_ID_LENGTH \<and>
   take 3 (snd (serialize sample_hmac sample_token)) = ''001'' \<and>
   take APP_ID_LENGTH (drop 3 (snd (serialize sample_hmac sample_token))) = appId sample_token \<and>
   length (snd (serialize sample_hmac sample_token)) =
     27 + 4 * ((length (utf8_parse (signed_envelope sample_hmac sample_token)) + 2) div 3) \<and>
   fst (serialize sample_hmac sample_token) = sample_token\<lparr>signature := hmacSign sample_hmac sample_token (packMsg sample_token)\<rparr>"
proof -
  have h: "length (appId sample_token) = APP_ID_LENGTH" by (simp add: APP_ID_LENGTH_def)
  show ?thesis using serialize_layout [OF h, of sample_hmac] h by blast
qed

text \<open>C26: parse does not validate privilege codes: a string carrying the code 7, which
  the enumeration does not have, parses into a token outside the builder's invariant.\<close>

theorem parse_accepts_unknown_codes: "\<exists>raw t. parse raw = Inr t \<and> \<not> token_wf t"
proof -
  have h: "parse (snd (serialize sample_hmac forged_token)) =
     Inr (forged_token\<lparr>appKey := [], signature := ''AAAAAAAAAAAAAAAAAAAAAAAAAAAAAAAAAAAAAAAAAAA=''\<rparr>)"
    by code_simp
  moreover have "\<not> token_wf (forged_token\<lparr>appKey := [], signature := ''AAAAAAAAAAAAAAAAAAAAAAAAAAAAAAAAAAAAAAAAAAA=''\<rparr>)"
    by (simp add: token_wf_def)
  ultimately show ?thesis by blast
qed

end
