(* ===== verification/RtcClient.thy ===== *)
theory RtcClient
  imports Codec
begin

text \<open>
  The RTC client wrapper of \<open>src/rtc/RTCHelper.ts\<close>: the singleton \<open>RTCClient\<close>
  holding the engine and room handles of the external RTC SDK.  The SDK itself is
  outside the model; what the wrapper does with it is recorded as the sequence of
  SDK calls it issues, in order, in the state.  An engine handle is represented by
  the appID it was created for, a room handle by its room id; \<open>None\<close> stands for
  both \<open>undefined\<close> and \<open>null\<close>, which the optional chaining \<open>?.\<close> treats alike.
  A method that throws returns \<open>Inl\<close> with the state reached so far (JavaScript
  does not roll back the fields already assigned).  An event-handler object passed to
  the SDK is represented by the names of its callbacks, a canvas by its view id.
\<close>

datatype sdk_call =
    CreateRTCEngine string
  | SetRtcVideoEventHandler "string list"
  | SetRTCRoomEventHandler "string list"
  | StartAudioCapture
  | StartVideoCapture
  | SetLocalVideoCanvas int string
  | RoomDestroy
  | DestroyRTCEngine
  | JoinRoom "(string \<times> json) list"
  | RoomLeaveRoom
  | CreateRTCRoom string

record RTCClient =
  engine :: "string option"
  room :: "string option"
  calls :: "sdk_call list"

text \<open>The inputs the token example reads from its environment: the HMAC, the two
  clock readings and the random value (see \<open>tokenWithAppID\<close>).\<close>

record token_env =
  env_hmac :: hmac_sha256
  env_t0_ms :: int
  env_rnd :: real
  env_t1_ms :: int

fun is_join :: "sdk_call \<Rightarrow> bool" where
  "is_join (JoinRoom _) = True"
| "is_join _ = False"

text \<open>What a method returns to its caller: \<open>RetUndefined\<close> when the optional
  chain stops at a missing handle, \<open>RetZero\<close> for the literal \<open>0\<close>, \<open>RetSdk\<close> for
  the (unmodelled) value the SDK method returns.\<close>

datatype sdk_ret = RetUndefined | RetZero | RetSdk

definition issue :: "sdk_call \<Rightarrow> RTCClient \<Rightarrow> RTCClient" where
  "issue c s = s\<lparr>calls := calls s @ [c]\<rparr>"

definition new_RTCClient :: RTCClient where
  "new_RTCClient = \<lparr>engine = None, room = None, calls = []\<rparr>"

definition createEngine :: "string \<Rightarrow> RTCClient \<Rightarrow> RTCClient" where
  "createEngine appID s = issue (CreateRTCEngine appID) s\<lparr>engine := Some appID\<rparr>"

definition setRTCVideoEventHandler :: "string list \<Rightarrow> RTCClient \<Rightarrow> RTCClient" where
  "setRTCVideoEventHandler handlers s =
     (case engine s of None \<Rightarrow> s | Some _ \<Rightarrow> issue (SetRtcVideoEventHandler handlers) s)"

definition setRTCRoomEventHandler :: "string list \<Rightarrow> RTCClient \<Rightarrow> RTCClient" where
  "setRTCRoomEventHandler handlers s =
     (case room s of None \<Rightarrow> s | Some _ \<Rightarrow> issue (SetRTCRoomEventHandler handlers) s)"

definition startAudioCapture :: "RTCClient \<Rightarrow> sdk_ret \<times> RTCClient" where
  "startAudioCapture s =
     (case engine s of None \<Rightarrow> (RetUndefined, s) | Some _ \<Rightarrow> (RetSdk, issue StartAudioCapture s))"

definition startVideoCapture :: "RTCClient \<Rightarrow> sdk_ret \<times> RTCClient" where
  "startVideoCapture s =
     (case engine s of None \<Rightarrow> (RetUndefined, s) | Some _ \<Rightarrow> (RetSdk, issue StartVideoCapture s))"

definition setLocalVideoCanvas :: "int \<Rightarrow> string \<Rightarrow> RTCClient \<Rightarrow> sdk_ret \<times> RTCClient" where
  "setLocalVideoCanvas streamIndex canvas s =
     (if streamIndex < 0 then (RetZero, s)
      else case engine s of
        None \<Rightarrow> (RetUndefined, s)
      | Some _ \<Rightarrow> (RetSdk, issue (SetLocalVideoCanvas streamIndex canvas) s))"

definition leaveRoom :: "RTCClient \<Rightarrow> RTCClient" where
  "leaveRoom s = (case room s of None \<Rightarrow> s | Some _ \<Rightarrow> issue RoomLeaveRoom s)"

definition destroyEngine :: "RTCClient \<Rightarrow> RTCClient" where
  "destroyEngine s =
     (let s1 = leaveRoom s;
          s2 = (case room s1 of None \<Rightarrow> s1 | Some _ \<Rightarrow> issue RoomDestroy s1);
          s3 = s2\<lparr>room := None\<rparr>;
          s4 = issue DestroyRTCEngine s3
      in s4\<lparr>engine := None\<rparr>)"

text \<open>\<open>joinRoom(params)\<close>: the token is computed first, with the hard-coded empty
  appId and appKey; a throwing \<open>tokenWithAppID\<close> propagates.  The object
  \<open>{token, ...params}\<close> is built by defining \<open>token\<close> and then each property of
  \<open>params\<close> in order, so a \<open>token\<close> property of \<open>params\<close> overrides it.\<close>

definition joinRoom ::
  "token_env \<Rightarrow> (string \<times> json) list \<Rightarrow> RTCClient \<Rightarrow> (error + sdk_ret) \<times> RTCClient" where
  "joinRoom env params s =
     (case tokenWithAppID (env_hmac env) [] [] ''123456'' ''123456'' (env_t0_ms env) (env_rnd env) (env_t1_ms env) of
       Inl e \<Rightarrow> (Inl e, s)
     | Inr token \<Rightarrow>
         (case room s of
           None \<Rightarrow> (Inr RetUndefined, s)
         | Some _ \<Rightarrow> (Inr RetSdk, issue (JoinRoom (assoc_of_list ((''token'', JStr token) # params))) s)))"

definition createRoom :: "string \<Rightarrow> RTCClient \<Rightarrow> RTCClient" where
  "createRoom roomId' s =
     (case engine s of
       None \<Rightarrow> s\<lparr>room := None\<rparr>
     | Some _ \<Rightarrow> issue (CreateRTCRoom roomId') s\<lparr>room := Some roomId'\<rparr>)"

subsection \<open>The client as a state machine\<close>

text \<open>One public method call with its arguments; \<open>client_step\<close> runs it and
  keeps the state it leaves, whether it returns or throws.\<close>

datatype client_op =
    OpCreateEngine string
  | OpSetVideoHandler "string list"
  | OpSetRoomHandler "string list"
  | OpStartAudioCapture
  | OpStartVideoCapture
  | OpSetLocalVideoCanvas int string
  | OpDestroyEngine
  | OpJoinRoom token_env "(string \<times> json) list"
  | OpLeaveRoom
  | OpCreateRoom string

fun client_step :: "client_op \<Rightarrow> RTCClient \<Rightarrow> RTCClient" where
  "client_step (OpCreateEngine a) s = createEngine a s"
| "client_step (OpSetVideoHandler hs) s = setRTCVideoEventHandler hs s"
| "client_step (OpSetRoomHandler hs) s = setRTCRoomEventHandler hs s"
| "client_step OpStartAudioCapture s = snd (startAudioCapture s)"
| "client_step OpStartVideoCapture s = snd (startVideoCapture s)"
| "client_step (OpSetLocalVideoCanvas i v) s = snd (setLocalVideoCanvas i v s)"
| "client_step OpDestroyEngine s = destroyEngine s"
| "client_step (OpJoinRoom env ps) s = snd (joinRoom env ps s)"
| "client_step OpLeaveRoom s = leaveRoom s"
| "client_step (OpCreateRoom r) s = createRoom r s"

text \<open>The states the exported singleton \<open>rctClient\<close> can reach by any sequence
  of method calls.\<close>

inductive reachable :: "RTCClient \<Rightarrow> bool" where
  init: "reachable new_RTCClient"
| step: "reachable s \<Longrightarrow> reachable (client_step op s)"

text \<open>The client's invariant: a room handle is only held while an engine is, and
  no \<open>joinRoom\<close> ever reached the SDK.\<close>

definition client_inv :: "RTCClient \<Rightarrow> bool" where
  "client_inv s \<longleftrightarrow> (room s \<noteq> None \<longrightarrow> engine s \<noteq> None) \<and> (\<forall>c \<in> set (calls s). \<not> is_join c)"

text \<open>A client after two method calls, for the witnesses.\<close>

abbreviation two_steps :: RTCClient where
  "two_steps \<equiv> client_step (OpCreateRoom ''123456'') (client_step (OpCreateEngine ''a'') new_RTCClient)"

lemma issue_fields [simp]:
  "engine (issue c s) = engine s" "room (issue c s) = room s" "calls (issue c s) = calls s @ [c]"
  by (simp_all add: issue_def)

lemma joinRoom_raises: "joinRoom env params s = (Inl InvalidFormat, s)"
  by (simp add: joinRoom_def tokenWithAppID_no_appId)

lemma client_step_inv: "client_inv s \<Longrightarrow> client_inv (client_step op s)"
  by (cases op)
    (auto simp: client_inv_def createEngine_def setRTCVideoEventHandler_def setRTCRoomEventHandler_def
      startAudioCapture_def startVideoCapture_def setLocalVideoCanvas_def destroyEngine_def
      leaveRoom_def createRoom_def joinRoom_raises Let_def split: option.splits)

subsection \<open>Properties of the client\<close>

text \<open>C4: Safety of the client: in every state the singleton client reaches by any
  sequence of method calls, a room handle is held only while an engine handle is, and
  no joinRoom call has ever reached the SDK, because joinRoom's token computation
  always raises before the room is touched.\<close>

theorem reachable_client_inv: "reachable s \<Longrightarrow> client_inv s"
proof (induction rule: reachable.induct)
  case init
  then show ?case by (simp add: client_inv_def new_RTCClient_def)
next
  case (step s op)
  from step.IH show ?case by (rule client_step_inv)
qed

theorem reachable_client_inv_witness: "reachable two_steps \<and> client_inv two_steps"
proof -
  have r: "reachable two_steps" by (intro reachable.step reachable.init)
  show ?thesis using reachable_client_inv [OF r] r by blast
qed

text \<open>C19: destroyEngine leaves the room (when there is one), destroys it, destroys the
  engine in that order, and clears both handles.\<close>

theorem destroyEngine_resets:
  "engine (destroyEngine s) = None \<and> room (destroyEngine s) = None \<and>
   calls (destroyEngine s) =
     calls s @ (if room s = None then [] else [RoomLeaveRoom, RoomDestroy]) @ [DestroyRTCEngine]"
  by (cases "room s") (simp_all add: destroyEngine_def leaveRoom_def Let_def)

end
