(* ===== verification/Handler.thy ===== *)
theory Handler
  imports Json
begin

text \<open>
  The logging callbacks of \<open>src/rtc/RCTHandler.ts\<close>.  JavaScript values that reach
  the callbacks are the datatype \<open>js_val\<close>; an object is the list of its own
  properties in own-key order (\<open>Object.getOwnPropertyNames\<close>), each a data property
  or an accessor whose getter returns a value, throws (\<open>Some None\<close>) or is absent
  (\<open>None\<close>); all properties of an object are taken as enumerable.  An array's own
  property names are its indices and \<open>length\<close>.  \<open>None\<close> results stand for a thrown
  \<open>TypeError\<close>.  The console is the list of lines logged; the callbacks the hooks
  pass to the SDK do nothing else, so a run of a handler is its log line followed
  by the call of its executer.
\<close>

datatype js_val =
    JSUndefined | JSNull | JSBool bool | JSNum int | JSStr string | JSFunction string
  | JSObject "(string \<times> js_prop) list" | JSArray "js_val list"
and js_prop = DataProp js_val | AccessorProp "js_val option option"

text \<open>\<open>typeof v === 'object'\<close>.\<close>

fun is_object :: "js_val \<Rightarrow> bool" where
  "is_object JSNull = True"
| "is_object (JSObject _) = True"
| "is_object (JSArray _) = True"
| "is_object _ = False"

fun is_function :: "js_val \<Rightarrow> bool" where
  "is_function (JSFunction _) = True"
| "is_function _ = False"

text \<open>\<open>Object.getOwnPropertyNames\<close> with the descriptors; it throws on \<open>null\<close>.\<close>

fun own_props :: "js_val \<Rightarrow> (string \<times> js_prop) list option" where
  "own_props (JSObject ps) = Some ps"
| "own_props (JSArray vs) =
     Some (map (\<lambda>i. (js_int_string (int i), DataProp (vs ! i))) [0..<length vs]
           @ [(''length'', DataProp (JSNum (int (length vs))))])"
| "own_props _ = None"

text \<open>The body of the \<open>forEach\<close> for one property: the value assigned to
  \<open>result[prop]\<close>, or \<open>None\<close> when nothing is assigned (a getter that throws,
  whose exception is caught, or a function-valued data property).  An accessor
  without getter reads as \<open>undefined\<close>.\<close>

fun convert_prop :: "js_prop \<Rightarrow> js_val option" where
  "convert_prop (AccessorProp (Some (Some v))) = Some v"
| "convert_prop (AccessorProp (Some None)) = None"
| "convert_prop (AccessorProp None) = Some JSUndefined"
| "convert_prop (DataProp v) = (if is_function v then None else Some v)"

definition convertObjectForPrinting :: "js_val \<Rightarrow> js_val option" where
  "convertObjectForPrinting obj =
     (if \<not> is_object obj then Some obj
      else case own_props obj of
        None \<Rightarrow> None
      | Some ps \<Rightarrow>
          Some (JSObject (js_object
            (concat (map (\<lambda>(k, p). case convert_prop p of None \<Rightarrow> [] | Some v \<Rightarrow> [(k, DataProp v)]) ps)))))"

text \<open>\<open>JSON.stringify\<close>'s serialisation of a value: it throws (a getter that
  throws), is omitted (\<open>undefined\<close> and functions), or is a JSON value.  Omitted
  array elements become \<open>null\<close>, omitted object members are dropped.\<close>

datatype ser = SThrow | SOmit | SVal json

fun json_ser :: "js_val \<Rightarrow> ser"
and json_ser_elems :: "js_val list \<Rightarrow> json list option"
and json_ser_members :: "(string \<times> js_prop) list \<Rightarrow> (string \<times> json) list option"
and json_ser_prop :: "js_prop \<Rightarrow> ser" where
  "json_ser JSUndefined = SOmit"
| "json_ser (JSFunction _) = SOmit"
| "json_ser JSNull = SVal JNull"
| "json_ser (JSBool b) = SVal (JBool b)"
| "json_ser (JSNum i) = SVal (JNum i)"
| "json_ser (JSStr s) = SVal (JStr s)"
| "json_ser (JSArray vs) = (case json_ser_elems vs of None \<Rightarrow> SThrow | Some js \<Rightarrow> SVal (JArr js))"
| "json_ser (JSObject ps) = (case json_ser_members ps of None \<Rightarrow> SThrow | Some ms \<Rightarrow> SVal (JObj ms))"
| "json_ser_elems [] = Some []"
| "json_ser_elems (v # vs) =
     (case json_ser v of
       SThrow \<Rightarrow> None
     | SOmit \<Rightarrow> map_option (Cons JNull) (json_ser_elems vs)
     | SVal j \<Rightarrow> map_option (Cons j) (json_ser_elems vs))"
| "json_ser_members [] = Some []"
| "json_ser_members ((k, p) # ps) =
     (case json_ser_prop p of
       SThrow \<Rightarrow> None
     | SOmit \<Rightarrow> json_ser_members ps
     | SVal j \<Rightarrow> map_option (Cons (k, j)) (json_ser_members ps))"
| "json_ser_prop (DataProp v) = json_ser v"
| "json_ser_prop (AccessorProp None) = SOmit"
| "json_ser_prop (AccessorProp (Some None)) = SThrow"
| "json_ser_prop (AccessorProp (Some (Some v))) = json_ser v"

definition JSON_stringify_val :: "js_val \<Rightarrow> string option" where
  "JSON_stringify_val v =
     (case json_ser v of SThrow \<Rightarrow> None | SOmit \<Rightarrow> Some ''undefined'' | SVal j \<Rightarrow> Some (json_stringify j))"

text \<open>\<open>Array.prototype.join\<close>'s conversion of a non-object element to text.\<close>

fun join_text :: "js_val \<Rightarrow> string" where
  "join_text JSUndefined = []"
| "join_text (JSBool b) = (if b then ''true'' else ''false'')"
| "join_text (JSNum i) = js_int_string i"
| "join_text (JSStr s) = s"
| "join_text (JSFunction src) = src"
| "join_text _ = []"

text \<open>One argument in the log line: objects are stringified after conversion (arrays
  element by element), other values are joined as they are.\<close>

definition arg_text :: "js_val \<Rightarrow> string option" where
  "arg_text arg =
     (if is_object arg then
        (case arg of
          JSArray vs \<Rightarrow>
            (case those (map convertObjectForPrinting vs) of
              None \<Rightarrow> None
            | Some cs \<Rightarrow> JSON_stringify_val (JSArray cs))
        | _ \<Rightarrow> (case convertObjectForPrinting arg of None \<Rightarrow> None | Some c \<Rightarrow> JSON_stringify_val c))
      else Some (join_text arg))"

fun join_bars :: "string list \<Rightarrow> string" where
  "join_bars [] = []"
| "join_bars [x] = x"
| "join_bars (x # xs) = x @ '' | '' @ join_bars xs"

definition log_line :: "string \<Rightarrow> js_val list \<Rightarrow> string option" where
  "log_line fnName args =
     map_option (\<lambda>ts. ''------ '' @ fnName @ '' : '' @ join_bars ts) (those (map arg_text args))"

text \<open>An own data property of a JavaScript object with its \<open>[[Writable]]\<close> attribute,
  and the assignment \<open>o.p = v\<close> to it (\<open>OrdinarySet\<close> followed by \<open>PutValue\<close>): a
  writable property takes the value; a read-only one keeps its value, and the failed
  assignment throws a \<open>TypeError\<close> (\<open>None\<close>) in strict-mode code and is ignored
  otherwise.\<close>

record 'a data_prop =
  dp_value :: 'a
  dp_writable :: bool

definition ordinary_set :: "bool \<Rightarrow> 'a \<Rightarrow> 'a data_prop \<Rightarrow> 'a data_prop option" where
  "ordinary_set strict v p =
     (if dp_writable p then Some (p\<lparr>dp_value := v\<rparr>) else if strict then None else Some p)"

text \<open>The function object \<open>f\<close> that \<open>logger(fnName, executer)\<close> builds: the label it
  logs, whether an executer was given, and its own \<open>name\<close> property.  The arrow
  function bound by \<open>const f = ...\<close> gets the name of its binding, \<open>f\<close>, as a
  read-only property (\<open>SetFunctionName\<close>).\<close>

record handler =
  h_label :: string
  h_has_executer :: bool
  h_name :: "string data_prop"

definition arrow_fun :: "string \<Rightarrow> string \<Rightarrow> bool \<Rightarrow> handler" where
  "arrow_fun binding fnName has_executer =
     \<lparr>h_label = fnName, h_has_executer = has_executer,
      h_name = \<lparr>dp_value = binding, dp_writable = False\<rparr>\<rparr>"

text \<open>\<open>logger\<close>: create \<open>f\<close>, assign \<open>f.name = fnName\<close>, return \<open>f\<close>;
  \<open>strict\<close> says whether the module's code runs in strict mode.\<close>

definition logger :: "bool \<Rightarrow> string \<Rightarrow> bool \<Rightarrow> handler option" where
  "logger strict fnName has_executer =
     (let f = arrow_fun ''f'' fnName has_executer
      in map_option (\<lambda>p. f\<lparr>h_name := p\<rparr>) (ordinary_set strict fnName (h_name f)))"

datatype effect = ConsoleLog string | RunExecuter string "js_val list"

text \<open>A call \<open>f(...args)\<close>: the log line, then \<open>executer?.(...args)\<close>; a
  \<open>TypeError\<close> while building the line stops the call before both.\<close>

definition run_handler :: "handler \<Rightarrow> js_val list \<Rightarrow> effect list option" where
  "run_handler h args =
     map_option (\<lambda>l. ConsoleLog l # (if h_has_executer h then [RunExecuter (h_label h) args] else []))
       (log_line (h_label h) args)"

definition useRTCVideoListeners :: "bool \<Rightarrow> (string \<times> handler) list option" where
  "useRTCVideoListeners strict =
     those (map (\<lambda>n. map_option (Pair n) (logger strict n False))
       [''onUserStartAudioCapture'', ''onUserStopAudioCapture'', ''onUserStartVideoCapture''])"

definition useRTCRoomListeners :: "bool \<Rightarrow> (string \<times> handler) list option" where
  "useRTCRoomListeners strict =
     those (map (\<lambda>n. map_option (Pair n) (logger strict n True)) [''onUserJoined'', ''onUserPublishStream''])"

text \<open>Sample arguments for the witnesses: an object with a number, a method and a
  getter that throws.\<close>

abbreviation sample_obj :: "(string \<times> js_prop) list" where
  "sample_obj \<equiv> [(''uid'', DataProp (JSNum 7)), (''toString'', DataProp (JSFunction ''f'')),
     (''extra'', AccessorProp (Some None))]"

subsection \<open>Lemmas\<close>

lemma map_of_js_object:
  assumes "distinct (map fst xs)"
  shows "map_of (js_object xs) = map_of xs"
proof -
  have "set (js_object xs) = set xs"
    using mset_js_object_distinct [OF assms] by (metis set_mset_mset)
  then show ?thesis
    using map_of_inject_set [OF js_object_keys_distinct assms] by simp
qed

lemma map_fst_converted:
  "map fst (concat (map (\<lambda>(k, p). case g p of None \<Rightarrow> [] | Some v \<Rightarrow> [(k, DataProp v)]) ps)) =
   map fst (filter (\<lambda>(k, p). g p \<noteq> None) ps)"
  by (induction ps) (auto split: option.split)

lemma map_of_converted:
  "distinct (map fst ps) \<Longrightarrow>
   map_of (concat (map (\<lambda>(k, p). case g p of None \<Rightarrow> [] | Some v \<Rightarrow> [(k, DataProp v)]) ps)) =
   (\<lambda>k. Option.bind (map_of ps k) (\<lambda>p. map_option DataProp (g p)))"
proof (induction ps)
  case (Cons q ps)
  obtain k p where q: "q = (k, p)" by (cases q)
  with Cons show ?case by (auto simp: fun_eq_iff map_of_eq_None_iff [THEN iffD2] split: option.split)
qed simp

lemma distinct_converted:
  "distinct (map fst ps) \<Longrightarrow>
   distinct (map fst (concat (map (\<lambda>(k, p). case g p of None \<Rightarrow> [] | Some v \<Rightarrow> [(k, DataProp v)]) ps)))"
  by (simp add: map_fst_converted distinct_map_filter)

lemma those_Some_iff: "those xs = Some ys \<longleftrightarrow> xs = map Some ys"
  by (induction xs arbitrary: ys) (auto split: option.splits)

lemma those_None: "None \<in> set xs \<Longrightarrow> those xs = None"
  by (induction xs) (auto split: option.splits)

subsection \<open>Properties of the handlers\<close>

text \<open>C22: convertObjectForPrinting on an object keeps exactly the properties whose
  value is not a function and whose getter does not throw, as data properties with the
  value read, and drops the others.\<close>

theorem convertObjectForPrinting_spec:
  assumes "distinct (map fst ps)"
  shows "\<exists>ps'. convertObjectForPrinting (JSObject ps) = Some (JSObject ps') \<and> distinct (map fst ps') \<and>
    (\<forall>k. map_of ps' k =
       (case map_of ps k of
         None \<Rightarrow> None
       | Some (DataProp v) \<Rightarrow> if is_function v then None else Some (DataProp v)
       | Some (AccessorProp (Some (Some v))) \<Rightarrow> Some (DataProp v)
       | Some (AccessorProp (Some None)) \<Rightarrow> None
       | Some (AccessorProp None) \<Rightarrow> Some (DataProp JSUndefined)))"
proof -
  have m: "Option.bind (map_of ps k) (\<lambda>p. map_option DataProp (convert_prop p)) =
       (case map_of ps k of
         None \<Rightarrow> None
       | Some (DataProp v) \<Rightarrow> if is_function v then None else Some (DataProp v)
       | Some (AccessorProp (Some (Some v))) \<Rightarrow> Some (DataProp v)
       | Some (AccessorProp (Some None)) \<Rightarrow> None
       | Some (AccessorProp None) \<Rightarrow> Some (DataProp JSUndefined))" for k
    by (auto split: option.split js_prop.split)
  show ?thesis
    using assms map_of_converted [OF assms, of convert_prop] distinct_converted [OF assms, of convert_prop] m
    by (simp add: convertObjectForPrinting_def map_of_js_object js_object_keys_distinct)
qed

theorem convertObjectForPrinting_spec_witness:
  "distinct (map fst sample_obj) \<and>
   (\<exists>ps'. convertObjectForPrinting (JSObject sample_obj) = Some (JSObject ps') \<and> distinct (map fst ps') \<and>
    (\<forall>k. map_of ps' k =
       (case map_of sample_obj k of
         None \<Rightarrow> None
       | Some (DataProp v) \<Rightarrow> if is_function v then None else Some (DataProp v)
       | Some (AccessorProp (Some (Some v))) \<Rightarrow> Some (DataProp v)
       | Some (AccessorProp (Some None)) \<Rightarrow> None
       | Some (AccessorProp None) \<Rightarrow> Some (DataProp JSUndefined))))"
proof -
  have h: "distinct (map fst sample_obj)" by simp
  show ?thesis using convertObjectForPrinting_spec [OF h] h by blast
qed

text \<open>C23: A handler called with a null argument throws a TypeError while building its
  log line (Object.getOwnPropertyNames(null)); nothing is logged and its executer
  never runs.\<close>

theorem run_handler_null:
  "JSNull \<in> set args \<Longrightarrow> run_handler h args = None"
proof -
  assume "JSNull \<in> set args"
  then have "None \<in> set (map arg_text args)"
    by (force simp: arg_text_def convertObjectForPrinting_def)
  then show ?thesis by (simp add: run_handler_def log_line_def those_None)
qed

theorem run_handler_null_witness:
  "JSNull \<in> set [JSStr ''u1'', JSNull] \<and>
   run_handler \<lparr>h_label = ''onUserJoined'', h_has_executer = True, h_name = \<lparr>dp_value = ''f'', dp_writable = False\<rparr>\<rparr> [JSStr ''u1'', JSNull] = None"
proof -
  have h: "JSNull \<in> set [JSStr ''u1'', JSNull]" by simp
  show ?thesis using run_handler_null [OF h] h by blast
qed

text \<open>C24: A handler called with primitive arguments logs one line, its label and the
  arguments joined by bars, and then runs its executer, if it has one, with the same
  arguments.\<close>

theorem run_handler_primitives:
  "list_all (\<lambda>a. \<not> is_object a) args \<Longrightarrow>
   run_handler h args =
     Some (ConsoleLog (''------ '' @ h_label h @ '' : '' @ join_bars (map join_text args))
           # (if h_has_executer h then [RunExecuter (h_label h) args] else []))"
proof -
  assume "list_all (\<lambda>a. \<not> is_object a) args"
  then have "map arg_text args = map Some (map join_text args)"
    by (induction args) (auto simp: arg_text_def)
  then have "those (map arg_text args) = Some (map join_text args)"
    by (simp only: those_Some_iff)
  then show ?thesis by (simp add: run_handler_def log_line_def)
qed

theorem run_handler_primitives_witness:
  "list_all (\<lambda>a. \<not> is_object a) [JSStr ''u1'', JSNum 2] \<and>
   run_handler \<lparr>h_label = ''onUserPublishStream'', h_has_executer = True, h_name = \<lparr>dp_value = ''f'', dp_writable = False\<rparr>\<rparr> [JSStr ''u1'', JSNum 2] =
     Some (ConsoleLog (''------ '' @ ''onUserPublishStream'' @ '' : '' @ join_bars (map join_text [JSStr ''u1'', JSNum 2]))
       # [RunExecuter ''onUserPublishStream'' [JSStr ''u1'', JSNum 2]])"
proof -
  have h: "list_all (\<lambda>a. \<not> is_object a) [JSStr ''u1'', JSNum 2]" by simp
  show ?thesis using run_handler_primitives [OF h, of "\<lparr>h_label = ''onUserPublishStream'', h_has_executer = True, h_name = \<lparr>dp_value = ''f'', dp_writable = False\<rparr>\<rparr>"] h by simp
qed

text \<open>C25: The assignment f.name = fnName never takes effect, whatever the name and the
  executer: in strict-mode code it throws, so logger and both listener hooks throw;
  otherwise logger returns a handler that logs under fnName, has the executer it was
  given, and is still named f.\<close>

theorem listeners_name_property:
  "logger True fnName ex = None \<and>
   (\<exists>f. logger False fnName ex = Some f \<and>
        h_label f = fnName \<and> h_has_executer f = ex \<and> dp_value (h_name f) = ''f'') \<and>
   useRTCVideoListeners True = None \<and> useRTCRoomListeners True = None"
  by (simp add: logger_def arrow_fun_def ordinary_set_def useRTCVideoListeners_def
      useRTCRoomListeners_def)

end
