(* ===== verification/App.thy ===== *)
theory App
  imports RtcClient Handler
begin

text \<open>
  The example page of \<open>src/App.tsx\<close>.  Its state is the \<open>isViewLoaded\<close> flag of
  the component, the module's \<open>rctClient\<close>, and the device permissions it has
  requested, in order (the permission library's answers are ignored by the code and
  are not modelled).  \<open>initialize\<close> is an \<open>async\<close> function: a throw inside it
  rejects its promise, which the surrounding \<open>try\<close> does not catch, and the
  statements after the throw do not run.  A render of \<open>ExamplePage\<close> calls the
  two listener hooks of \<open>RCTHandler.ts\<close> (it throws when they do) and returns the
  element tree, modelled as the props it gives the native view; \<open>initialize\<close> is a
  closure over the listener tables of that render.  The logging of the render and the
  SDK's enumeration values are not modelled; \<open>StreamIndex.STREAM_INDEX_MAIN\<close> is the
  SDK's stream index 0.
\<close>

datatype platform = IOS | Android

datatype permission = IOS_CAMERA | IOS_MICROPHONE | ANDROID_CAMERA | ANDROID_RECORD_AUDIO

record AppState =
  isViewLoaded :: bool
  client :: RTCClient
  requested :: "permission list"

definition app_init :: AppState where
  "app_init = \<lparr>isViewLoaded = False, client = new_RTCClient, requested = []\<rparr>"

definition STREAM_INDEX_MAIN :: int where
  "STREAM_INDEX_MAIN = 0"

definition viewId :: string where
  "viewId = ''my-view''"

text \<open>The element tree a render returns: the behaviour of the
  \<open>KeyboardAvoidingView\<close> and the \<open>viewId\<close> and \<open>kind\<close> of the
  \<open>NativeViewComponent\<close> inside it, whose \<open>onLoad\<close> is \<open>handleViewLoad\<close>.\<close>

record view =
  kav_behavior :: string
  native_viewId :: string
  native_kind :: string

definition page_view :: "platform \<Rightarrow> view" where
  "page_view os =
     \<lparr>kav_behavior = (if os = IOS then ''padding'' else ''height''),
      native_viewId = viewId,
      native_kind = (case os of Android \<Rightarrow> ''TextureView'' | IOS \<Rightarrow> ''UIView'')\<rparr>"

text \<open>One render: the listener tables of the two hooks, in the order they are
  called, and the view; \<open>None\<close> when a hook throws.\<close>

record page =
  pg_engine_listeners :: "(string \<times> handler) list"
  pg_room_listeners :: "(string \<times> handler) list"
  pg_view :: view

definition ExamplePage :: "bool \<Rightarrow> platform \<Rightarrow> page option" where
  "ExamplePage strict os =
     (case useRTCVideoListeners strict of
       None \<Rightarrow> None
     | Some engineEventListeners \<Rightarrow>
         (case useRTCRoomListeners strict of
           None \<Rightarrow> None
         | Some roomEventListeners \<Rightarrow>
             Some \<lparr>pg_engine_listeners = engineEventListeners,
                   pg_room_listeners = roomEventListeners, pg_view = page_view os\<rparr>))"

definition example_appID :: string where
  "example_appID = ''68afed4e18ee8d017b08325f''"

text \<open>The argument of \<open>rctClient.joinRoom\<close>: the user id and the room
  configuration, the SDK's channel profile written by its name.\<close>

definition join_params :: "(string \<times> json) list" where
  "join_params =
     [(''userId'', JStr ''123456''),
      (''roomConfigs'', JObj [(''profile'', JStr ''CHANNEL_PROFILE_COMMUNICATION''),
         (''isAutoPublish'', JBool True), (''isAutoSubscribeAudio'', JBool True),
         (''isAutoSubscribeVideo'', JBool True)])]"

definition requestDevicePermission :: "platform \<Rightarrow> AppState \<Rightarrow> AppState" where
  "requestDevicePermission os st =
     st\<lparr>requested := requested st @
        (if os = IOS then [IOS_CAMERA, IOS_MICROPHONE] else [ANDROID_CAMERA, ANDROID_RECORD_AUDIO])\<rparr>"

definition initialize ::
  "token_env \<Rightarrow> platform \<Rightarrow> (string \<times> handler) list \<Rightarrow> (string \<times> handler) list \<Rightarrow>
   AppState \<Rightarrow> (error + unit) \<times> AppState" where
  "initialize env os engineEventListeners roomEventListeners st =
     (let st1 = requestDevicePermission os st;
          c1 = createEngine example_appID (client st1);
          c2 = setRTCVideoEventHandler (map fst engineEventListeners) c1;
          c3 = snd (setLocalVideoCanvas STREAM_INDEX_MAIN viewId c2);
          c4 = createRoom ''123456'' c3;
          c5 = setRTCRoomEventHandler (map fst roomEventListeners) c4
      in case joinRoom env join_params c5 of
        (Inl e, c6) \<Rightarrow> (Inl e, st1\<lparr>client := c6\<rparr>)
      | (Inr _, c6) \<Rightarrow>
          (let c7 = snd (startVideoCapture c6);
               c8 = snd (startAudioCapture c7)
           in (Inr (), st1\<lparr>client := c8\<rparr>)))"

text \<open>The effect on \<open>[isViewLoaded]\<close>, run after a render in which the flag
  changed: when the flag is set it calls \<open>initialize\<close> without awaiting it, so the
  \<open>try\<close> catches nothing and a throw inside \<open>initialize\<close> becomes the rejection of
  its promise.  The result is that rejection, if any, and the new state.\<close>

definition viewLoadedEffect ::
  "token_env \<Rightarrow> platform \<Rightarrow> (string \<times> handler) list \<Rightarrow> (string \<times> handler) list \<Rightarrow>
   AppState \<Rightarrow> error option \<times> AppState" where
  "viewLoadedEffect env os engineEventListeners roomEventListeners st =
     (if isViewLoaded st then
        (case initialize env os engineEventListeners roomEventListeners st of
          (Inl e, st') \<Rightarrow> (Some e, st')
        | (Inr (), st') \<Rightarrow> (None, st'))
      else (None, st))"

text \<open>\<open>handleViewLoad\<close>, the \<open>onLoad\<close> callback of the native view, followed by what
  React does with \<open>setViewLoaded(true)\<close>: setting the flag to the value it already
  has schedules no render and so no effect; otherwise the page renders again (its hooks
  return the same listener tables) and the effect runs.\<close>

definition handleViewLoad ::
  "token_env \<Rightarrow> platform \<Rightarrow> (string \<times> handler) list \<Rightarrow> (string \<times> handler) list \<Rightarrow>
   AppState \<Rightarrow> error option \<times> AppState" where
  "handleViewLoad env os vl rl st =
     (if isViewLoaded st then (None, st)
      else viewLoadedEffect env os vl rl (st\<lparr>isViewLoaded := True\<rparr>))"

text \<open>The states of the mounted page under any sequence of load events of its native
  view, each with any token environment and the listener tables of some render.\<close>

inductive page_reachable :: "AppState \<Rightarrow> bool" where
  init: "page_reachable app_init"
| load: "page_reachable st \<Longrightarrow> page_reachable (snd (handleViewLoad env os vl rl st))"

text \<open>The page's invariant: the engine has been created once exactly when the view
  has loaded, and no capture was ever started.\<close>

definition page_inv :: "AppState \<Rightarrow> bool" where
  "page_inv st \<longleftrightarrow>
     count_list (calls (client st)) (CreateRTCEngine example_appID) = (if isViewLoaded st then 1 else 0) \<and>
     StartVideoCapture \<notin> set (calls (client st)) \<and> StartAudioCapture \<notin> set (calls (client st))"

text \<open>An environment for the witnesses.\<close>

abbreviation sample_env :: token_env where
  "sample_env \<equiv> \<lparr>env_hmac = sample_hmac, env_t0_ms = 0, env_rnd = 0, env_t1_ms = 0\<rparr>"

lemma initialize_trace:
  "initialize env os vl rl st =
     (Inl InvalidFormat,
      (requestDevicePermission os st)\<lparr>client :=
         \<lparr>engine = Some example_appID, room = Some ''123456'',
          calls = calls (client st) @ [CreateRTCEngine example_appID, SetRtcVideoEventHandler (map fst vl),
            SetLocalVideoCanvas 0 viewId, CreateRTCRoom ''123456'', SetRTCRoomEventHandler (map fst rl)]\<rparr>\<rparr>)"
  by (simp add: initialize_def joinRoom_raises createEngine_def setRTCVideoEventHandler_def
      setLocalVideoCanvas_def STREAM_INDEX_MAIN_def createRoom_def setRTCRoomEventHandler_def
      requestDevicePermission_def issue_def)

lemma ExamplePage_SomeD:
  "ExamplePage strict os = Some pg \<Longrightarrow>
   \<exists>vl rl. useRTCVideoListeners strict = Some vl \<and> useRTCRoomListeners strict = Some rl \<and>
     pg = \<lparr>pg_engine_listeners = vl, pg_room_listeners = rl, pg_view = page_view os\<rparr>"
  by (auto simp: ExamplePage_def split: option.splits)

lemma handleViewLoad_inv: "page_inv st \<Longrightarrow> page_inv (snd (handleViewLoad env os vl rl st))"
  by (simp add: page_inv_def handleViewLoad_def viewLoadedEffect_def initialize_trace
      requestDevicePermission_def)

subsection \<open>Properties of the page\<close>

text \<open>C3: The page never starts capturing: the first load of the view runs initialize,
  which creates the engine, sets the handlers, the canvas and the room, and then raises
  InvalidFormat in joinRoom; the rejection is unhandled and startVideoCapture and
  startAudioCapture are never called.\<close>

theorem handleViewLoad_first:
  "handleViewLoad env os vl rl app_init =
     (Some InvalidFormat,
      \<lparr>isViewLoaded = True,
       client = \<lparr>engine = Some example_appID, room = Some ''123456'',
         calls = [CreateRTCEngine example_appID, SetRtcVideoEventHandler (map fst vl),
           SetLocalVideoCanvas 0 ''my-view'', CreateRTCRoom ''123456'', SetRTCRoomEventHandler (map fst rl)]\<rparr>,
       requested = (if os = IOS then [IOS_CAMERA, IOS_MICROPHONE] else [ANDROID_CAMERA, ANDROID_RECORD_AUDIO])\<rparr>)"
  by (simp add: handleViewLoad_def viewLoadedEffect_def initialize_trace app_init_def new_RTCClient_def
      requestDevicePermission_def viewId_def)

text \<open>C14: initialize runs at most once: a second load event of the view changes nothing
  and raises nothing.\<close>

theorem handleViewLoad_once:
  "handleViewLoad env os vl rl (snd (handleViewLoad env os vl rl st)) =
     (None, snd (handleViewLoad env os vl rl st))"
  by (simp add: handleViewLoad_def viewLoadedEffect_def initialize_trace requestDevicePermission_def)

text \<open>C27: The page, the listener hooks and the client fit together: for a render that
  mounts, the first load of its view hands the SDK the callbacks of the two hook tables
  by name, in the order the hooks define them, and the view id the render put on the
  native view as the local canvas; every callback logs under its own key, and only the
  room callbacks have an executer.\<close>

theorem page_load_wires_listeners:
  "ExamplePage strict os = Some pg \<Longrightarrow>
   calls (client (snd (handleViewLoad env os (pg_engine_listeners pg) (pg_room_listeners pg) app_init))) =
     [CreateRTCEngine example_appID,
      SetRtcVideoEventHandler [''onUserStartAudioCapture'', ''onUserStopAudioCapture'', ''onUserStartVideoCapture''],
      SetLocalVideoCanvas 0 (native_viewId (pg_view pg)),
      CreateRTCRoom ''123456'',
      SetRTCRoomEventHandler [''onUserJoined'', ''onUserPublishStream'']] \<and>
   (\<forall>(n, h) \<in> set (pg_engine_listeners pg). h_label h = n \<and> \<not> h_has_executer h) \<and>
   (\<forall>(n, h) \<in> set (pg_room_listeners pg). h_label h = n \<and> h_has_executer h)"
  by (drule ExamplePage_SomeD, cases strict)
    (auto simp add: handleViewLoad_def viewLoadedEffect_def initialize_trace app_init_def new_RTCClient_def page_view_def
      useRTCVideoListeners_def useRTCRoomListeners_def logger_def arrow_fun_def ordinary_set_def viewId_def)

theorem page_load_wires_listeners_witness:
  "ExamplePage False IOS = Some (the (ExamplePage False IOS)) \<and>
   calls (client (snd (handleViewLoad sample_env IOS (pg_engine_listeners (the (ExamplePage False IOS)))
     (pg_room_listeners (the (ExamplePage False IOS))) app_init))) =
     [CreateRTCEngine example_appID,
      SetRtcVideoEventHandler [''onUserStartAudioCapture'', ''onUserStopAudioCapture'', ''onUserStartVideoCapture''],
      SetLocalVideoCanvas 0 ''my-view'', CreateRTCRoom ''123456'',
      SetRTCRoomEventHandler [''onUserJoined'', ''onUserPublishStream'']]"
proof -
  have h: "ExamplePage False IOS = Some (the (ExamplePage False IOS))"
    by (simp add: ExamplePage_def useRTCVideoListeners_def useRTCRoomListeners_def logger_def arrow_fun_def ordinary_set_def)
  show ?thesis using page_load_wires_listeners [OF h, of sample_env] h
    by (simp add: ExamplePage_def useRTCVideoListeners_def useRTCRoomListeners_def logger_def arrow_fun_def ordinary_set_def
        page_view_def viewId_def)
qed

text \<open>C28: Invariant of the page: in every state the mounted page reaches by any sequence
  of load events, the engine has been created exactly once if the view has loaded and
  never otherwise, and neither video nor audio capture has been started.\<close>

theorem page_reachable_inv: "page_reachable st \<Longrightarrow> page_inv st"
proof (induction rule: page_reachable.induct)
  case init
  show ?case by (simp add: page_inv_def app_init_def new_RTCClient_def)
next
  case (load st env os vl rl)
  from load.IH show ?case by (rule handleViewLoad_inv)
qed

theorem page_reachable_inv_witness:
  "page_reachable (snd (handleViewLoad sample_env IOS [] [] app_init)) \<and>
   page_inv (snd (handleViewLoad sample_env IOS [] [] app_init))"
proof -
  have r: "page_reachable (snd (handleViewLoad sample_env IOS [] [] app_init))"
    by (intro page_reachable.load page_reachable.init)
  show ?thesis using page_reachable_inv [OF r] r by blast
qed

end
