(* ===== verification/Spec2Isabelle.thy ===== *)
theory Spec2Isabelle
  imports App Handler
begin

text \<open>
  \<^bold>\<open>Verification of the access-token scheme and RTC glue of expo-ai-chat-demo.\<close>

  \<^bold>\<open>The program.\<close>  \<open>src/rtc/RTCTokenHelper.ts\<close> implements an HMAC-signed
  capability token: the \<open>AccessToken\<close> class (builder, canonical packer, signer,
  \<open>serialize\<close>, \<open>parse\<close>, \<open>verify\<close>) and the usage example \<open>tokenWithAppID\<close>.
  \<open>src/rtc/RTCHelper.ts\<close> wraps the external RTC SDK in the singleton
  \<open>rctClient\<close>, whose \<open>joinRoom\<close> obtains its token from \<open>tokenWithAppID\<close>.
  \<open>src/App.tsx\<close> is the page that, once its native view has loaded, requests the
  device permissions and drives \<open>rctClient\<close> through engine creation, room
  creation, joining and capture.  \<open>src/rtc/RCTHandler.ts\<close> builds the logging
  callbacks the page hands to the SDK.

  \<^bold>\<open>Theories.\<close>
  \<^item> \<open>Prelude\<close>: the model's type names (bytes as naturals below 256), the
    collections \<open>codec_simps\<close> and \<open>roundtrip_simps\<close>, decimal digit strings and
    their values.
  \<^item> \<open>Base64\<close>: crypto-js's \<open>Base64.stringify\<close> (with \<open>=\<close> padding) and its lenient
    \<open>parseLoop\<close> (stops at the first \<open>=\<close>, reads unknown characters as 0), and
    UTF-8 encoding and strict decoding of characters below 256.  Lemmas: the
    round trips \<open>base64_parse_stringify\<close> and \<open>utf8_stringify_parse\<close>, the length
    of the encoding, and that the parser ignores everything after a padding
    character (\<open>base64_parse_after_pad\<close>).
  \<^item> \<open>Json\<close>: JavaScript objects as association lists in own-key order
    (array-index keys ascending, then insertion order: \<open>js_object\<close>),
    \<open>JSON.stringify\<close> on the \<open>json\<close> datatype, and \<open>JSON.parse\<close> as a recursive
    descent parser with fuel.  Lemmas: fuel monotonicity, that fuel
    \<open>2 * length s + 1\<close> suffices (\<open>jfuel_le_length\<close>), the round trip
    \<open>JSON_parse_stringify\<close>, the permutation facts on own-key order, and the
    termination of the parser: every successful step consumes input, so fuel
    \<open>2 * length s + 1\<close> reaches the result on every text, any more fuel gives
    the same answer (\<open>jp_value_fuel_enough\<close>); the codec's \<open>parse\<close> therefore
    never runs out of fuel.
  \<^item> \<open>Token\<close>: \<open>AccessToken\<close> as a record, the constructor (the clock \<open>now_ms\<close> and
    the value of \<open>Math.random()\<close> are inputs), \<open>addPrivilege\<close>, \<open>expireTime\<close>,
    \<open>packMsg\<close> and \<open>hmacSign\<close>; methods that mutate \<open>this\<close> return the new record.
    HMAC-SHA256 is a parameter \<open>H :: hmac_sha256\<close> returning 8-bit words.
    An abstract specification (\<open>token_spec\<close>, \<open>abs_token\<close>): a grant over an explicit
    rule table (\<open>grant_spec\<close>) and a packer listing privileges by ascending code
    (\<open>pack_spec\<close>), which \<open>addPrivilege\<close> and \<open>packMsg\<close> refine.
    Properties C7, C10 to C12, C18, C20, C21.
  \<^item> \<open>Codec\<close>: \<open>serialize\<close> (returning the updated token and the string),
    \<open>parse\<close> (every exception is \<open>Inl InvalidVersion\<close> or \<open>Inl InvalidFormat\<close>),
    \<open>verify\<close> (the clock is an input), \<open>tokenWithAppID\<close>.  Properties C1, C2,
    C5, C6, C8, C9, C13, C15 to C17, C26.
  \<^item> \<open>RtcClient\<close>: \<open>RTCClient\<close> as a record of its two handles and the list of SDK
    calls it has issued, one state transformer per method, \<open>client_step\<close> over a
    datatype of method calls, and the inductive \<open>reachable\<close>.  A handler object
    handed to the SDK is recorded by its callback names, a canvas by its view id.
    Properties C4, C19.
  \<^item> \<open>App\<close> (imports \<open>RtcClient\<close> and \<open>Handler\<close>): the page state (view-loaded
    flag, client, requested permissions), a render \<open>ExamplePage\<close> (the two listener
    hooks and the native view's props, \<open>page_view\<close>), \<open>initialize\<close> as a closure
    over the render's listener tables, the load event \<open>handleViewLoad\<close> and the
    effect on \<open>isViewLoaded\<close> (\<open>viewLoadedEffect\<close>), and the states of the mounted
    page under load events (the inductive \<open>page_reachable\<close>).  Properties C3, C14,
    C27, C28.
  \<^item> \<open>Handler\<close>: JavaScript values with data and accessor properties,
    \<open>convertObjectForPrinting\<close>, \<open>JSON.stringify\<close> on such values, the log line
    of \<open>logger\<close>, a handler call as its console line followed by its executer call,
    the assignment to a data property with its writable attribute
    (\<open>ordinary_set\<close>), \<open>logger\<close> as the creation of the arrow function \<open>f\<close> with
    its read-only \<open>name\<close> followed by \<open>f.name = fnName\<close>, and the two listener
    hooks.  Properties C22 to C25.

  \<^bold>\<open>What the properties show.\<close>  The wire codec round-trips every signed field
  and the privilege map for an appId of the fixed width (C1), and the recovered token
  verifies with its key exactly while unexpired (C2, C15); expiry and the
  no-expiry sentinel behave as specified (C5, C6); the signature covers exactly the
  signed fields, packed canonically whatever the insertion order (C10 to C12),
  and the builder and packer refine their abstract specification (C20, C21).
  Two results contradict the specification or the program's intent: the lenient
  Base64 parser lets the final padding character be replaced without detection
  (C8, against the tamper-sensitivity property of spec section 8), and \<open>joinRoom\<close>'s
  empty appId makes every join throw, so the page never joins a room or starts
  capture (C3, C4).  In the logging callbacks, a \<open>null\<close> argument passes the
  \<open>typeof\<close> guard and throws (C23), and \<open>f.name = fnName\<close> never renames the
  handler (C25): the arrow function's \<open>name\<close> is read-only.  \<open>parse\<close> accepts
  privilege codes outside the enumeration (C26).  The page,
  the hooks and the client fit together: the SDK receives the callbacks of both hooks
  by name and the rendered view as canvas (C27).  Whatever load events arrive, the engine is
  created at most once and capture never starts (C28).

  \<^bold>\<open>Ranges and fuel.\<close>  JavaScript numbers are modelled as integers; this is
  faithful for the integers the code stores (timestamps in seconds, nonces below
  \<open>10^9\<close>, enum codes), which are exact doubles and print without exponent.
  Characters are those below 256 (crypto-js's UTF-8 decoder is modelled for one- and
  two-byte sequences).  \<open>JSON.parse\<close> gets fuel \<open>2 * length s + 1\<close>: every nesting
  level and every element consumes at least one character of its text, so this
  fuel is never exhausted on the texts the code parses (\<open>jfuel_le_length\<close>).
  \<open>parse\<close> reads the typed fields \<open>serialize\<close> writes; a message whose fields have
  other JSON types is rejected with \<open>InvalidFormat\<close>, where JavaScript would store
  the foreign value.

  \<^bold>\<open>Not modelled.\<close>  The RTC SDK (only the sequence of calls made to it is
  recorded), the HMAC-SHA256 algorithm (a parameter), the permission library's
  answers, React's scheduling beyond the load effect, the console itself (a logged line is an event), property
  enumerability and the \<open>__proto__\<close> key in \<open>convertObjectForPrinting\<close>, and the
  SDK's enumeration values (\<open>STREAM_INDEX_MAIN\<close> is taken as 0).
\<close>

end
